theory Spec2Isabelle
  imports Main "HOL-Library.Char_ord" "HOL-Library.List_Lexorder"
begin

section \<open>Python string operations used by \<open>scripts/seed_school_batch.py\<close>\<close>

text \<open>
  A Python \<open>str\<close> is modelled as a \<^typ>\<open>string\<close>, one \<^typ>\<open>char\<close> per code point; the model
  therefore covers text whose code points are below 256 (the embedded mapping table is ASCII).
  \<open>isspace\<close> lists the code points below 256 for which Python's \<open>str.isspace\<close> holds; they are
  the characters \<open>str.strip()\<close> removes.
\<close>

definition isspace :: "char \<Rightarrow> bool" where
  "isspace c = (c \<in> set [CHR 0x09, CHR 0x0A, CHR 0x0B, CHR 0x0C, CHR 0x0D,
                          CHR 0x1C, CHR 0x1D, CHR 0x1E, CHR 0x1F, CHR 0x20,
                          CHR 0x85, CHR 0xA0])"

text \<open>\<open>s.strip(chars)\<close>: drop the characters satisfying \<open>p\<close> from both ends.\<close>

definition strip_chars :: "(char \<Rightarrow> bool) \<Rightarrow> string \<Rightarrow> string" where
  "strip_chars p s = rev (dropWhile p (rev (dropWhile p s)))"

text \<open>\<open>s.strip()\<close>.\<close>

definition strip :: "string \<Rightarrow> string" where
  "strip s = strip_chars isspace s"

text \<open>\<open>s.split(sep)\<close> for a one-character separator: always at least one part.\<close>

fun str_split :: "char \<Rightarrow> string \<Rightarrow> string list" where
  "str_split sep [] = [[]]"
| "str_split sep (c # cs) =
     (if c = sep then [] # str_split sep cs
      else (case str_split sep cs of
              p # ps \<Rightarrow> (c # p) # ps
            | [] \<Rightarrow> [[c]]))"

text \<open>\<open>s.split(sep, 1)\<close> for a string that contains \<open>sep\<close>: the text before the first
  separator and the text after it.\<close>

definition str_split1 :: "char \<Rightarrow> string \<Rightarrow> string \<times> string" where
  "str_split1 sep s = (takeWhile (\<lambda>c. c \<noteq> sep) s, drop 1 (dropWhile (\<lambda>c. c \<noteq> sep) s))"

text \<open>\<open>sep.join(xs)\<close>.\<close>

fun join :: "string \<Rightarrow> string list \<Rightarrow> string" where
  "join sep [] = []"
| "join sep [x] = x"
| "join sep (x # y # ys) = x @ sep @ join sep (y # ys)"

text \<open>The decimal rendering of an integer in an f-string.\<close>

definition digit_char :: "nat \<Rightarrow> char" where
  "digit_char d = char_of (48 + d)"

fun str_nat :: "nat \<Rightarrow> string" where
  "str_nat n = (if n < 10 then [digit_char n] else str_nat (n div 10) @ [digit_char (n mod 10)])"

declare str_nat.simps [simp del]

definition str_int :: "int \<Rightarrow> string" where
  "str_int i = (if i < 0 then CHR ''-'' # str_nat (nat (- i)) else str_nat (nat i))"

text \<open>\<open>sorted(set(xs))\<close> on strings: Python compares strings lexicographically by code point.\<close>

definition sorted_set :: "string list \<Rightarrow> string list" where
  "sorted_set xs = sorted_list_of_set (set xs)"

text \<open>\<open>cur.fetchone()\<close>: the first row of the result, or \<open>None\<close>.\<close>

definition fetchone :: "'a list \<Rightarrow> 'a option" where
  "fetchone rows = (case rows of [] \<Rightarrow> None | r # _ \<Rightarrow> Some r)"


section \<open>The database\<close>

text \<open>
  The three tables the script touches, with the columns it names. A table is the list of its
  rows in the order in which the store returns them to a query without \<open>ORDER BY\<close>; the
  script never asks for an order, so this order is whatever the store happens to produce.
  The order is part of a value of \<open>database\<close> and belongs to that value only: the same rows
  in another order are another value, and nothing makes the store keep an order from one run
  to the next. A statement about two runs therefore takes the database of the second run as
  a value of its own and says what it shares with the database the first run left.
\<close>

type_synonym timestamp = nat

record batch_row =
  b_id :: int
  b_batch_id :: string
  b_parent_id :: "int option"

record school_row =
  s_id :: int
  s_name :: string

record school_batch_row =
  sb_school_id :: int
  sb_batch_id :: int
  sb_inserted_at :: timestamp
  sb_updated_at :: timestamp

record database =
  batch :: "batch_row list"
  school :: "school_row list"
  school_batch :: "school_batch_row list"

datatype db_error = UniqueViolation

text \<open>\<open>SELECT id, parent_id FROM batch WHERE batch_id = %s\<close>\<close>

definition select_batch :: "database \<Rightarrow> string \<Rightarrow> batch_row list" where
  "select_batch d batch_key = filter (\<lambda>r. b_batch_id r = batch_key) (batch d)"

text \<open>\<open>SELECT id FROM school WHERE name = %s\<close>\<close>

definition select_school :: "database \<Rightarrow> string \<Rightarrow> school_row list" where
  "select_school d school_name = filter (\<lambda>r. s_name r = school_name) (school d)"

text \<open>\<open>SELECT 1 FROM school_batch WHERE school_id = %s AND batch_id = %s\<close>\<close>

definition select_school_batch :: "database \<Rightarrow> int \<Rightarrow> int \<Rightarrow> school_batch_row list" where
  "select_school_batch d school_id batch_id =
     filter (\<lambda>r. sb_school_id r = school_id \<and> sb_batch_id r = batch_id) (school_batch d)"

text \<open>
  \<open>INSERT INTO school_batch (school_id, batch_id, inserted_at, updated_at)
   VALUES (%s, %s, NOW(), NOW())\<close>.

  Modelled from the spec: the uniqueness constraint on \<open>(school_id, batch_id)\<close> of
  \<open>school_batch\<close>. The table's declaration is not part of the script; the specification's
  schema gives the constraint. An insert of a key that is present raises (psycopg2's
  \<open>UniqueViolation\<close>); otherwise the row is stored with both timestamps \<open>NOW()\<close>.
\<close>

definition insert_school_batch ::
  "timestamp \<Rightarrow> database \<Rightarrow> int \<Rightarrow> int \<Rightarrow> db_error + database" where
  "insert_school_batch now d school_id batch_id =
     (if select_school_batch d school_id batch_id \<noteq> [] then Inl UniqueViolation
      else Inr (d\<lparr>school_batch := school_batch d @
                  [\<lparr>sb_school_id = school_id, sb_batch_id = batch_id,
                    sb_inserted_at = now, sb_updated_at = now\<rparr>]\<rparr>))"

text \<open>
  Other sessions may commit to the same database while the script runs. \<open>interference\<close> is
  what they do to the database between the script's existence check and its insert;
  \<open>alone\<close> is a run with no other session.
\<close>

type_synonym interference = "database \<Rightarrow> database"

definition alone :: interference where
  "alone d = d"


section \<open>\<open>ensure_school_batch\<close>\<close>

text \<open>
  Returns the function's boolean and the database after the call; an exception of the insert
  is not caught in the source, so it is the result of the call.
\<close>

definition ensure_school_batch ::
  "interference \<Rightarrow> timestamp \<Rightarrow> database \<Rightarrow> int \<Rightarrow> int \<Rightarrow> db_error + (bool \<times> database)" where
  "ensure_school_batch others now d school_id batch_id =
     (case fetchone (select_school_batch d school_id batch_id) of
        Some _ \<Rightarrow> Inr (False, d)
      | None \<Rightarrow>
          (case insert_school_batch now (others d) school_id batch_id of
             Inl e \<Rightarrow> Inl e
           | Inr d' \<Rightarrow> Inr (True, d')))"


section \<open>The main loop\<close>

text \<open>
  The module-level variables of the script, together with the database the cursor works on.
  \<open>calls\<close> is not a variable of the script: it records, in order, the arguments of every call
  of \<open>ensure_school_batch\<close>, so that statements about association attempts can be made.
\<close>

record run =
  db :: database
  inserted :: int
  skipped :: int
  missing_batches :: "string list"
  missing_schools :: "string list"
  calls :: "(int \<times> int) list"

definition init :: "database \<Rightarrow> run" where
  "init d = \<lparr>db = d, inserted = 0, skipped = 0, missing_batches = [], missing_schools = [],
             calls = []\<rparr>"

text \<open>
  The head of the loop body: strip the line, skip it when empty, split at tabs, strip the
  parts, skip the line when there are fewer than three parts. \<open>None\<close> is \<open>continue\<close>.
\<close>

definition parse_line :: "string \<Rightarrow> (string \<times> string \<times> string) option" where
  "parse_line raw_line =
     (let line = strip raw_line in
      if line = [] then None
      else
        let parts = map strip (str_split CHR 0x09 line) in
        if length parts < 3 then None
        else Some (parts ! 0, parts ! 1, parts ! 2))"

text \<open>
  \<open>if ensure_school_batch(cur, school_id, x): inserted += 1  else: skipped += 1\<close>,
  which the loop body contains twice.
\<close>

definition count_ensure :: "interference \<Rightarrow> timestamp \<Rightarrow> run \<Rightarrow> int \<Rightarrow> int \<Rightarrow> db_error + run" where
  "count_ensure others now st school_id batch_id =
     (case ensure_school_batch others now (db st) school_id batch_id of
        Inl e \<Rightarrow> Inl e
      | Inr (was_inserted, d') \<Rightarrow>
          Inr (if was_inserted
               then st\<lparr>db := d', inserted := inserted st + 1,
                       calls := calls st @ [(school_id, batch_id)]\<rparr>
               else st\<lparr>db := d', skipped := skipped st + 1,
                       calls := calls st @ [(school_id, batch_id)]\<rparr>))"

text \<open>
  The rest of the loop body, for a line that was not skipped. \<open>if parent_id:\<close> is Python's
  truth value of the column: false for \<open>None\<close> and for \<open>0\<close>.
\<close>

definition process_row ::
  "interference \<Rightarrow> timestamp \<Rightarrow> run \<Rightarrow> string \<times> string \<times> string \<Rightarrow> db_error + run" where
  "process_row others now st row =
     (case row of (batch_key, program, school_name) \<Rightarrow>
        (case fetchone (select_batch (db st) batch_key) of
           None \<Rightarrow> Inr (st\<lparr>missing_batches := missing_batches st @ [batch_key]\<rparr>)
         | Some batch_row \<Rightarrow>
             (let batch_id = b_id batch_row; parent_id = b_parent_id batch_row;
                  school_rows = select_school (db st) school_name
              in if school_rows = []
                 then Inr (st\<lparr>missing_schools := missing_schools st @ [school_name]\<rparr>)
                 else
                   (let school_id = s_id (school_rows ! 0) in
                    case count_ensure others now st school_id batch_id of
                      Inl e \<Rightarrow> Inl e
                    | Inr st1 \<Rightarrow>
                        (case parent_id of
                           None \<Rightarrow> Inr st1
                         | Some p \<Rightarrow>
                             if p \<noteq> 0 then count_ensure others now st1 school_id p
                             else Inr st1)))))"

definition process_line :: "interference \<Rightarrow> timestamp \<Rightarrow> run \<Rightarrow> string \<Rightarrow> db_error + run" where
  "process_line others now st raw_line =
     (case parse_line raw_line of
        None \<Rightarrow> Inr st
      | Some row \<Rightarrow> process_row others now st row)"

text \<open>\<open>for raw_line in MAPPING_DATA.splitlines(): ...\<close>; an exception ends the loop.\<close>

fun main_loop :: "interference \<Rightarrow> timestamp \<Rightarrow> run \<Rightarrow> string list \<Rightarrow> db_error + run" where
  "main_loop others now st [] = Inr st"
| "main_loop others now st (raw_line # rest) =
     (case process_line others now st raw_line of
        Inl e \<Rightarrow> Inl e
      | Inr st' \<Rightarrow> main_loop others now st' rest)"


text \<open>
  \<open>MAPPING_DATA.splitlines()\<close>: the lines of the table embedded in the script, after the
  \<open>strip()\<close> of the whole text. The fields of a line are separated by one tab.
\<close>

abbreviation TAB :: string where
  "TAB \<equiv> [CHR 0x09]"

definition MAPPING_DATA :: "string list" where
  "MAPPING_DATA =
    [''EnableStudents_11_25_Engg_C01'' @ TAB @ ''CoE'' @ TAB @ ''JNV Adilabad'',
     ''EnableStudents_11_25_Engg_C02'' @ TAB @ ''CoE'' @ TAB @ ''JNV Barwani'',
     ''EnableStudents_11_25_Engg_C03'' @ TAB @ ''CoE'' @ TAB @ ''JNV Bundi'',
     ''EnableStudents_11_25_Engg_C04'' @ TAB @ ''CoE'' @ TAB @ ''JNV Chandigarh'',
     ''EnableStudents_11_25_Engg_C05'' @ TAB @ ''CoE'' @ TAB @ ''JNV Cuttack'',
     ''EnableStudents_11_25_Engg_C06'' @ TAB @ ''CoE'' @ TAB @ ''JNV Burdwan'',
     ''EnableStudents_11_25_Engg_C07'' @ TAB @ ''CoE'' @ TAB @ ''JNV Hassan'',
     ''EnableStudents_11_25_Engg_C08'' @ TAB @ ''CoE'' @ TAB @ ''JNV Kohima'',
     ''EnableStudents_11_25_Engg_C09'' @ TAB @ ''CoE'' @ TAB @ ''JNV Kokrajhar'',
     ''EnableStudents_11_25_Engg_C10'' @ TAB @ ''CoE'' @ TAB @ ''JNV Kolhapur'',
     ''EnableStudents_11_25_Engg_C11'' @ TAB @ ''CoE'' @ TAB @ ''JNV Kottayam'',
     ''EnableStudents_11_25_Engg_C12'' @ TAB @ ''CoE'' @ TAB @ ''JNV Kurnool'',
     ''EnableStudents_11_25_Engg_C13'' @ TAB @ ''CoE'' @ TAB @ ''JNV Lucknow'',
     ''EnableStudents_11_25_Engg_C14'' @ TAB @ ''CoE'' @ TAB @ ''JNV Mahisagar'',
     ''EnableStudents_11_25_Engg_C16'' @ TAB @ ''CoE'' @ TAB @ ''JNV Palghar'',
     ''EnableStudents_11_25_Engg_C17'' @ TAB @ ''CoE'' @ TAB @ ''JNV Puducherry'',
     ''EnableStudents_11_25_Engg_C18'' @ TAB @ ''CoE'' @ TAB @ ''JNV Thiruvananthapuram'',
     ''EnableStudents_11_25_Engg_N01'' @ TAB @ ''Nodal'' @ TAB @ ''JNV Adilabad'',
     ''EnableStudents_11_25_Engg_N02'' @ TAB @ ''Nodal'' @ TAB @ ''JNV Bharuch'',
     ''EnableStudents_11_25_Engg_N03'' @ TAB @ ''Nodal'' @ TAB @ ''JNV Chamarajanagar'',
     ''EnableStudents_11_25_Engg_N04'' @ TAB @ ''Nodal'' @ TAB @ ''JNV Chandrapur'',
     ''EnableStudents_11_25_Engg_N05'' @ TAB @ ''Nodal'' @ TAB @ ''JNV Hassan'',
     ''EnableStudents_11_25_Engg_N06'' @ TAB @ ''Nodal'' @ TAB @ ''JNV Karimnagar'',
     ''EnableStudents_11_25_Engg_N07'' @ TAB @ ''Nodal'' @ TAB @ ''JNV Mandya'',
     ''EnableStudents_11_25_Engg_N08'' @ TAB @ ''Nodal'' @ TAB @ ''JNV Nagpur'',
     ''EnableStudents_11_25_Engg_N09'' @ TAB @ ''Nodal'' @ TAB @ ''JNV South Canara'',
     ''EnableStudents_11_25_Engg_N10'' @ TAB @ ''Nodal'' @ TAB @ ''JNV Udupi'',
     ''EnableStudents_11_25_Engg_N11'' @ TAB @ ''Nodal'' @ TAB @ ''JNV Wardha'',
     ''EnableStudents_11_25_Med_C04'' @ TAB @ ''CoE'' @ TAB @ ''JNV Chandigarh'',
     ''EnableStudents_11_25_Med_C08'' @ TAB @ ''CoE'' @ TAB @ ''JNV Kohima'',
     ''EnableStudents_11_25_Med_C09'' @ TAB @ ''CoE'' @ TAB @ ''JNV Kokrajhar'',
     ''EnableStudents_11_25_Med_C15'' @ TAB @ ''CoE'' @ TAB @ ''JNV Medak'',
     ''EnableStudents_11_25_Med_N01'' @ TAB @ ''Nodal'' @ TAB @ ''JNV Adilabad'',
     ''EnableStudents_11_25_Med_N02'' @ TAB @ ''Nodal'' @ TAB @ ''JNV Bharuch'',
     ''EnableStudents_11_25_Med_N03'' @ TAB @ ''Nodal'' @ TAB @ ''JNV Chamarajanagar'',
     ''EnableStudents_11_25_Med_N04'' @ TAB @ ''Nodal'' @ TAB @ ''JNV Chandrapur'',
     ''EnableStudents_11_25_Med_N05'' @ TAB @ ''Nodal'' @ TAB @ ''JNV Hassan'',
     ''EnableStudents_11_25_Med_N06'' @ TAB @ ''Nodal'' @ TAB @ ''JNV Karimnagar'',
     ''EnableStudents_11_25_Med_N07'' @ TAB @ ''Nodal'' @ TAB @ ''JNV Mandya'',
     ''EnableStudents_11_25_Med_N08'' @ TAB @ ''Nodal'' @ TAB @ ''JNV Nagpur'',
     ''EnableStudents_11_25_Med_N09'' @ TAB @ ''Nodal'' @ TAB @ ''JNV South Canara'',
     ''EnableStudents_11_25_Med_N10'' @ TAB @ ''Nodal'' @ TAB @ ''JNV Udupi'',
     ''EnableStudents_11_25_Med_N11'' @ TAB @ ''Nodal'' @ TAB @ ''JNV Wardha'',
     ''EnableStudents_12_25_Engg_C01'' @ TAB @ ''CoE'' @ TAB @ ''JNV Adilabad'',
     ''EnableStudents_12_25_Engg_C02'' @ TAB @ ''CoE'' @ TAB @ ''JNV Barwani'',
     ''EnableStudents_12_25_Engg_C03'' @ TAB @ ''CoE'' @ TAB @ ''JNV Bundi'',
     ''EnableStudents_12_25_Engg_C04'' @ TAB @ ''CoE'' @ TAB @ ''JNV Chandigarh'',
     ''EnableStudents_12_25_Engg_C05'' @ TAB @ ''CoE'' @ TAB @ ''JNV Cuttack'',
     ''EnableStudents_12_25_Engg_C07'' @ TAB @ ''CoE'' @ TAB @ ''JNV Hassan'',
     ''EnableStudents_12_25_Engg_C08'' @ TAB @ ''CoE'' @ TAB @ ''JNV Kohima'',
     ''EnableStudents_12_25_Engg_C09'' @ TAB @ ''CoE'' @ TAB @ ''JNV Kokrajhar'',
     ''EnableStudents_12_25_Engg_C11'' @ TAB @ ''CoE'' @ TAB @ ''JNV Kottayam'',
     ''EnableStudents_12_25_Engg_C12'' @ TAB @ ''CoE'' @ TAB @ ''JNV Kurnool'',
     ''EnableStudents_12_25_Engg_C13'' @ TAB @ ''CoE'' @ TAB @ ''JNV Lucknow'',
     ''EnableStudents_12_25_Engg_C18'' @ TAB @ ''CoE'' @ TAB @ ''JNV Thiruvananthapuram'',
     ''EnableStudents_12_25_Engg_N01'' @ TAB @ ''Nodal'' @ TAB @ ''JNV Adilabad'',
     ''EnableStudents_12_25_Engg_N02'' @ TAB @ ''Nodal'' @ TAB @ ''JNV Bharuch'',
     ''EnableStudents_12_25_Engg_N03'' @ TAB @ ''Nodal'' @ TAB @ ''JNV Chamarajanagar'',
     ''EnableStudents_12_25_Engg_N04'' @ TAB @ ''Nodal'' @ TAB @ ''JNV Chandrapur'',
     ''EnableStudents_12_25_Engg_N05'' @ TAB @ ''Nodal'' @ TAB @ ''JNV Hassan'',
     ''EnableStudents_12_25_Engg_N06'' @ TAB @ ''Nodal'' @ TAB @ ''JNV Karimnagar'',
     ''EnableStudents_12_25_Engg_N07'' @ TAB @ ''Nodal'' @ TAB @ ''JNV Mandya'',
     ''EnableStudents_12_25_Engg_N08'' @ TAB @ ''Nodal'' @ TAB @ ''JNV Nagpur'',
     ''EnableStudents_12_25_Engg_N09'' @ TAB @ ''Nodal'' @ TAB @ ''JNV South Canara'',
     ''EnableStudents_12_25_Engg_N10'' @ TAB @ ''Nodal'' @ TAB @ ''JNV Udupi'',
     ''EnableStudents_12_25_Engg_N11'' @ TAB @ ''Nodal'' @ TAB @ ''JNV Wardha'',
     ''EnableStudents_12_25_Med_C01'' @ TAB @ ''CoE'' @ TAB @ ''JNV Adilabad'',
     ''EnableStudents_12_25_Med_C04'' @ TAB @ ''CoE'' @ TAB @ ''JNV Chandigarh'',
     ''EnableStudents_12_25_Med_C07'' @ TAB @ ''CoE'' @ TAB @ ''JNV Hassan'',
     ''EnableStudents_12_25_Med_C08'' @ TAB @ ''CoE'' @ TAB @ ''JNV Kohima'',
     ''EnableStudents_12_25_Med_C09'' @ TAB @ ''CoE'' @ TAB @ ''JNV Kokrajhar'',
     ''EnableStudents_12_25_Med_N01'' @ TAB @ ''Nodal'' @ TAB @ ''JNV Adilabad'',
     ''EnableStudents_12_25_Med_N02'' @ TAB @ ''Nodal'' @ TAB @ ''JNV Bharuch'',
     ''EnableStudents_12_25_Med_N03'' @ TAB @ ''Nodal'' @ TAB @ ''JNV Chamarajanagar'',
     ''EnableStudents_12_25_Med_N04'' @ TAB @ ''Nodal'' @ TAB @ ''JNV Chandrapur'',
     ''EnableStudents_12_25_Med_N05'' @ TAB @ ''Nodal'' @ TAB @ ''JNV Hassan'',
     ''EnableStudents_12_25_Med_N06'' @ TAB @ ''Nodal'' @ TAB @ ''JNV Karimnagar'',
     ''EnableStudents_12_25_Med_N07'' @ TAB @ ''Nodal'' @ TAB @ ''JNV Mandya'',
     ''EnableStudents_12_25_Med_N08'' @ TAB @ ''Nodal'' @ TAB @ ''JNV Nagpur'',
     ''EnableStudents_12_25_Med_N09'' @ TAB @ ''Nodal'' @ TAB @ ''JNV South Canara'',
     ''EnableStudents_12_25_Med_N10'' @ TAB @ ''Nodal'' @ TAB @ ''JNV Udupi'',
     ''EnableStudents_12_25_Med_N11'' @ TAB @ ''Nodal'' @ TAB @ ''JNV Wardha'',
     ''EMRSStudents_11_Alpha_Eng_25_C001'' @ TAB @ ''CoE'' @ TAB @ ''EMRS Bhopal'',
     ''EMRSStudents_12_Alpha_Eng_25_C001'' @ TAB @ ''CoE'' @ TAB @ ''EMRS Bhopal'',
     ''EnableStudents_12_25_Engg_N12'' @ TAB @ ''Nodal'' @ TAB @ ''JNV Bhagalpur'',
     ''EnableStudents_12_25_Med_N12'' @ TAB @ ''Nodal'' @ TAB @ ''JNV Bhagalpur'',
     ''EnableStudents_11_25_Engg_N12'' @ TAB @ ''Nodal'' @ TAB @ ''JNV Bhagalpur'',
     ''EnableStudents_11_25_Med_N12'' @ TAB @ ''Nodal'' @ TAB @ ''JNV Bhagalpur'',
     ''EnableStudents_12_25_Engg_N13'' @ TAB @ ''Nodal'' @ TAB @ ''JNV Vaishali'',
     ''EnableStudents_12_25_Med_N13'' @ TAB @ ''Nodal'' @ TAB @ ''JNV Vaishali'',
     ''EnableStudents_11_25_Engg_N13'' @ TAB @ ''Nodal'' @ TAB @ ''JNV Vaishali'',
     ''EnableStudents_11_25_Med_N13'' @ TAB @ ''Nodal'' @ TAB @ ''JNV Vaishali'',
     ''EMRSStudents_11_Alpha_Med_25_C001'' @ TAB @ ''CoE'' @ TAB @ ''EMRS Bhopal'',
     ''EMRSStudents_12_Alpha_Med_25_C001'' @ TAB @ ''CoE'' @ TAB @ ''EMRS Bhopal'']"


section \<open>The summary\<close>

text \<open>The lines the four \<open>print\<close> statements write; \<open>print(a, b)\<close> separates by one space.\<close>

definition summary :: "run \<Rightarrow> string list" where
  "summary st =
     [''Inserted: '' @ str_int (inserted st),
      ''Skipped (already exists): '' @ str_int (skipped st)]
     @ (if missing_batches st \<noteq> []
        then [''Missing batch_id rows:'' @ '' '' @ join '', '' (sorted_set (missing_batches st))]
        else [])
     @ (if missing_schools st \<noteq> []
        then [''Missing school rows:'' @ '' '' @ join '', '' (sorted_set (missing_schools st))]
        else [])"

text \<open>
  The script from the connection on: the loop inside \<open>with conn\<close>, which commits when the block
  ends normally, then the summary. An exception leaves the block before anything is printed.
  The result is the committed database and the printed lines.
\<close>

definition script ::
  "interference \<Rightarrow> timestamp \<Rightarrow> database \<Rightarrow> string list \<Rightarrow> db_error + (database \<times> string list)" where
  "script others now d lines =
     (case main_loop others now (init d) lines of
        Inl e \<Rightarrow> Inl e
      | Inr st \<Rightarrow> Inr (db st, summary st))"

text \<open>The script as it is written: the loop runs over the embedded table.\<close>

definition seed_school_batch ::
  "interference \<Rightarrow> timestamp \<Rightarrow> database \<Rightarrow> db_error + (database \<times> string list)" where
  "seed_school_batch others now d = script others now d MAPPING_DATA"

section \<open>\<open>load_env\<close>\<close>

text \<open>\<open>s.startswith(prefix)\<close>.\<close>

definition startswith :: "string \<Rightarrow> string \<Rightarrow> bool" where
  "startswith prefix s = (take (length prefix) s = prefix)"

text \<open>
  \<open>os.environ\<close> is a map from names to values. Storing a name or a value that contains the
  NUL character raises \<open>ValueError\<close>; the guard of the source already excludes the empty
  name, and a name cut at the first \<open>=\<close> contains none.
\<close>

type_synonym environ = "string \<rightharpoonup> string"

datatype env_error = ValueError

definition environ_set :: "environ \<Rightarrow> string \<Rightarrow> string \<Rightarrow> env_error + environ" where
  "environ_set env key val =
     (if CHR 0x00 \<in> set key \<or> CHR 0x00 \<in> set val then Inl ValueError
      else Inr (env(key \<mapsto> val)))"

text \<open>The body of the loop over the lines of the file.\<close>

definition load_env_line :: "environ \<Rightarrow> string \<Rightarrow> env_error + environ" where
  "load_env_line env raw_line =
     (let line = strip raw_line in
      if line = [] \<or> startswith ''#'' line \<or> CHR ''='' \<notin> set line then Inr env
      else
        (case str_split1 CHR ''='' line of (key0, value0) \<Rightarrow>
           (let key = strip key0;
                val = strip_chars (\<lambda>c. c = CHR 0x27)
                        (strip_chars (\<lambda>c. c = CHR 0x22) (strip value0))
            in if key \<noteq> [] \<and> env key = None then environ_set env key val
               else Inr env)))"

text \<open>
  The loop: the environment when it ends, and the exception that ended it, if any.
\<close>

fun load_env_lines :: "environ \<Rightarrow> string list \<Rightarrow> environ \<times> env_error option" where
  "load_env_lines env [] = (env, None)"
| "load_env_lines env (raw_line # rest) =
     (case load_env_line env raw_line of
        Inl e \<Rightarrow> (env, Some e)
      | Inr env' \<Rightarrow> load_env_lines env' rest)"

text \<open>
  \<open>load_env(path)\<close>. The file is \<open>None\<close> when the path does not exist, and otherwise the lines
  the file object yields.
\<close>

definition load_env :: "string list option \<Rightarrow> environ \<Rightarrow> environ \<times> env_error option" where
  "load_env env_file env =
     (case env_file of
        None \<Rightarrow> (env, None)
      | Some raw_lines \<Rightarrow> load_env_lines env raw_lines)"


section \<open>Notions used in the statements\<close>

text \<open>An association with the composite key \<open>(school_id, batch_id)\<close> is stored.\<close>

definition present :: "database \<Rightarrow> int \<Rightarrow> int \<Rightarrow> bool" where
  "present d school_id batch_id = (select_school_batch d school_id batch_id \<noteq> [])"

text \<open>The row an insert stores.\<close>

definition new_row :: "timestamp \<Rightarrow> int \<Rightarrow> int \<Rightarrow> school_batch_row" where
  "new_row now school_id batch_id =
     \<lparr>sb_school_id = school_id, sb_batch_id = batch_id,
      sb_inserted_at = now, sb_updated_at = now\<rparr>"

text \<open>What the final report shows of a run: the two counters and the lengths of the two lists.\<close>

definition accounted :: "run \<Rightarrow> int" where
  "accounted st =
     inserted st + skipped st + int (length (missing_batches st))
       + int (length (missing_schools st))"

text \<open>The composite key of an association.\<close>

definition sb_key :: "school_batch_row \<Rightarrow> int \<times> int" where
  "sb_key r = (sb_school_id r, sb_batch_id r)"


section \<open>Example inputs\<close>

text \<open>
  The scenario of the specification: batch \<open>X01\<close> with a parent, school \<open>School A\<close> with id 7,
  no association stored; a row for them and a row whose batch code \<open>GHOST\<close> does not exist.
\<close>

definition ex_db :: database where
  "ex_db = \<lparr>batch = [\<lparr>b_id = 1, b_batch_id = ''X01'', b_parent_id = Some 5\<rparr>,
                     \<lparr>b_id = 5, b_batch_id = ''P'', b_parent_id = None\<rparr>],
            school = [\<lparr>s_id = 7, s_name = ''School A''\<rparr>],
            school_batch = []\<rparr>"

definition ex_line :: string where
  "ex_line = ''X01'' @ TAB @ ''CoE'' @ TAB @ ''School A''"

definition ghost_line :: string where
  "ghost_line = ''GHOST'' @ TAB @ ''CoE'' @ TAB @ ''School A''"

text \<open>The database after the first run over the two rows at time 1.\<close>

definition ex_db_after :: database where
  "ex_db_after = ex_db\<lparr>school_batch := [new_row 1 7 1, new_row 1 7 5]\<rparr>"

text \<open>The state in which the run over the two rows ends.\<close>

definition ex_run :: run where
  "ex_run = \<lparr>db = ex_db_after, inserted = 2, skipped = 0, missing_batches = [''GHOST''],
             missing_schools = [], calls = [(7, 1), (7, 5)]\<rparr>"

text \<open>A line with two fields only.\<close>

definition short_line :: string where
  "short_line = ''X01'' @ TAB @ ''CoE''"

text \<open>Two school records share the name; the store returns the one with the higher id first.\<close>

definition dup_db :: database where
  "dup_db = \<lparr>batch = [\<lparr>b_id = 1, b_batch_id = ''X01'', b_parent_id = None\<rparr>],
             school = [\<lparr>s_id = 9, s_name = ''School A''\<rparr>, \<lparr>s_id = 7, s_name = ''School A''\<rparr>],
             school_batch = []\<rparr>"

text \<open>The same records, returned in the other order.\<close>

definition dup_db' :: database where
  "dup_db' = \<lparr>batch = [\<lparr>b_id = 1, b_batch_id = ''X01'', b_parent_id = None\<rparr>],
              school = [\<lparr>s_id = 7, s_name = ''School A''\<rparr>, \<lparr>s_id = 9, s_name = ''School A''\<rparr>],
              school_batch = []\<rparr>"

text \<open>The ids of the school records with a given name.\<close>

definition school_ids :: "database \<Rightarrow> string \<Rightarrow> int set" where
  "school_ids d school_name = set (map s_id (select_school d school_name))"

text \<open>Another session commits the association \<open>(7, 1)\<close> between the check and the insert.\<close>

definition racing :: interference where
  "racing d = d\<lparr>school_batch := school_batch d @ [new_row 0 7 1]\<rparr>"

text \<open>The batch of the row has the parent id 0.\<close>

definition zero_parent_db :: database where
  "zero_parent_db = \<lparr>batch = [\<lparr>b_id = 1, b_batch_id = ''X01'', b_parent_id = Some 0\<rparr>,
                             \<lparr>b_id = 0, b_batch_id = ''ROOT'', b_parent_id = None\<rparr>],
                    school = [\<lparr>s_id = 7, s_name = ''School A''\<rparr>],
                    school_batch = []\<rparr>"

text \<open>An environment in which \<open>DATABASE_HOST\<close> is set, and an env file that names it again.\<close>

definition ex_environ :: environ where
  "ex_environ = [''DATABASE_HOST'' \<mapsto> ''prod'']"

definition ex_env_file :: "string list" where
  "ex_env_file = [''DATABASE_HOST=dev'' @ [CHR 0x0A], ''# local settings'' @ [CHR 0x0A],
                  [CHR 0x0A], ''DATABASE_PORT = '' @ [CHR 0x22] @ ''5433'' @ [CHR 0x22]]"

text \<open>The databases after the first run over \<open>ex_line\<close> at time 1 on \<open>dup_db\<close>: as the run left
  it, and with the same rows while the store returns the two schools in the other order.\<close>

definition dup_db_after :: database where
  "dup_db_after = dup_db\<lparr>school_batch := [new_row 1 9 1]\<rparr>"

definition dup_db_after' :: database where
  "dup_db_after' = dup_db'\<lparr>school_batch := [new_row 1 9 1]\<rparr>"

text \<open>The rows of \<open>ex_db_after\<close>, with the batches and the associations returned in another
  order.\<close>

definition ex_db_after' :: database where
  "ex_db_after' = \<lparr>batch = [\<lparr>b_id = 5, b_batch_id = ''P'', b_parent_id = None\<rparr>,
                          \<lparr>b_id = 1, b_batch_id = ''X01'', b_parent_id = Some 5\<rparr>],
                  school = [\<lparr>s_id = 7, s_name = ''School A''\<rparr>],
                  school_batch = [new_row 1 7 5, new_row 1 7 1]\<rparr>"

text \<open>Another session commits the parent association \<open>(7, 5)\<close> between the check and the
  insert of the parent attempt, that is, once \<open>(7, 1)\<close> is stored.\<close>

definition racing_parent :: interference where
  "racing_parent d =
     (if present d 7 1 then d\<lparr>school_batch := school_batch d @ [new_row 0 7 5]\<rparr> else d)"

text \<open>The state after the direct attempt of \<open>ex_line\<close> at time 1 on \<open>ex_db\<close>.\<close>

definition ex_mid :: run where
  "ex_mid = \<lparr>db = ex_db\<lparr>school_batch := [new_row 1 7 1]\<rparr>, inserted = 1, skipped = 0,
             missing_batches = [], missing_schools = [], calls = [(7, 1)]\<rparr>"


section \<open>Basic facts\<close>

lemma fetchone_eq_None [simp]: "fetchone rows = None \<longleftrightarrow> rows = []"
  by (simp add: fetchone_def split: list.splits)

lemma fetchone_simps [simp]: "fetchone [] = None" "fetchone (r # rs) = Some r"
  by (simp_all add: fetchone_def)

lemma fetchone_eq_Some: "fetchone rows = Some r \<longleftrightarrow> (\<exists>rs. rows = r # rs)"
  by (simp add: fetchone_def split: list.splits)

lemma present_iff:
  "present d s b \<longleftrightarrow> (\<exists>r \<in> set (school_batch d). sb_school_id r = s \<and> sb_batch_id r = b)"
  by (auto simp: present_def select_school_batch_def filter_empty_conv)

lemma present_append [simp]:
  "present (d\<lparr>school_batch := school_batch d @ [new_row now s b]\<rparr>) s' b' \<longleftrightarrow>
     present d s' b' \<or> (s' = s \<and> b' = b)"
  by (auto simp: present_def select_school_batch_def new_row_def)

lemma ensure_alone:
  "ensure_school_batch alone now d s b =
     (if present d s b then Inr (False, d)
      else Inr (True, d\<lparr>school_batch := school_batch d @ [new_row now s b]\<rparr>))"
  by (auto simp: ensure_school_batch_def present_def fetchone_def insert_school_batch_def
      alone_def new_row_def split: list.splits)

lemma ensure_present:
  "present d s b \<Longrightarrow> ensure_school_batch others now d s b = Inr (False, d)"
  by (auto simp: ensure_school_batch_def present_def fetchone_def split: list.splits)

lemma count_ensure_alone:
  "count_ensure alone now st s b =
     Inr (if present (db st) s b
          then st\<lparr>skipped := skipped st + 1, calls := calls st @ [(s, b)]\<rparr>
          else st\<lparr>db := (db st)\<lparr>school_batch := school_batch (db st) @ [new_row now s b]\<rparr>,
                  inserted := inserted st + 1, calls := calls st @ [(s, b)]\<rparr>)"
  by (simp add: count_ensure_def ensure_alone)

lemma count_ensure_present:
  "present (db st) s b \<Longrightarrow>
   count_ensure others now st s b =
     Inr (st\<lparr>skipped := skipped st + 1, calls := calls st @ [(s, b)]\<rparr>)"
  by (simp add: count_ensure_def ensure_present)

lemma process_row_alone_total: "\<exists>st'. process_row alone now st row = Inr st'"
  by (cases row) (simp add: process_row_def count_ensure_alone Let_def split: option.splits)

lemma process_line_alone_total: "\<exists>st'. process_line alone now st l = Inr st'"
  by (simp add: process_line_def process_row_alone_total split: option.splits)

lemma main_loop_alone_total: "\<exists>st'. main_loop alone now st ls = Inr st'"
proof (induction ls arbitrary: st)
  case Nil
  show ?case by simp
next
  case (Cons l ls)
  obtain st1 where "process_line alone now st l = Inr st1"
    using process_line_alone_total by blast
  with Cons show ?case by simp
qed

text \<open>One row, run alone: the tables read are unchanged, stored pairs stay stored, and every
  attempted pair is stored afterwards.\<close>

lemma process_row_alone_frame:
  assumes "process_row alone now st row = Inr st'"
  shows "batch (db st') = batch (db st) \<and> school (db st') = school (db st)
       \<and> (\<forall>s b. present (db st) s b \<longrightarrow> present (db st') s b)
       \<and> (\<exists>cs. calls st' = calls st @ cs \<and> (\<forall>(s, b) \<in> set cs. present (db st') s b))"
  using assms
  by (cases row)
     (auto simp: process_row_def count_ensure_alone Let_def present_iff new_row_def
        split: option.splits if_splits)


lemma process_line_alone_frame:
  assumes "process_line alone now st l = Inr st'"
  shows "batch (db st') = batch (db st) \<and> school (db st') = school (db st)
       \<and> (\<forall>s b. present (db st) s b \<longrightarrow> present (db st') s b)
       \<and> (\<exists>cs. calls st' = calls st @ cs \<and> (\<forall>(s, b) \<in> set cs. present (db st') s b))"
proof (cases "parse_line l")
  case None
  with assms have "st' = st" by (simp add: process_line_def)
  then show ?thesis by simp
next
  case (Some row)
  with assms have "process_row alone now st row = Inr st'" by (simp add: process_line_def)
  then show ?thesis by (rule process_row_alone_frame)
qed

lemma main_loop_alone_frame:
  "main_loop alone now st ls = Inr st' \<Longrightarrow>
   batch (db st') = batch (db st) \<and> school (db st') = school (db st)
   \<and> (\<forall>s b. present (db st) s b \<longrightarrow> present (db st') s b)
   \<and> (\<exists>cs. calls st' = calls st @ cs \<and> (\<forall>(s, b) \<in> set cs. present (db st') s b))"
proof (induction ls arbitrary: st)
  case Nil
  then show ?case by simp
next
  case (Cons l ls)
  obtain st1 where s1: "process_line alone now st l = Inr st1"
    using process_line_alone_total by blast
  with Cons.prems have rest: "main_loop alone now st1 ls = Inr st'" by simp
  note f1 = process_line_alone_frame [OF s1]
  note f2 = Cons.IH [OF rest]
  from f1 obtain cs1 where c1: "calls st1 = calls st @ cs1"
    and p1: "\<forall>(s, b) \<in> set cs1. present (db st1) s b" by blast
  from f2 obtain cs2 where c2: "calls st' = calls st1 @ cs2"
    and p2: "\<forall>(s, b) \<in> set cs2. present (db st') s b" by blast
  have "calls st' = calls st @ (cs1 @ cs2)" using c1 c2 by simp
  moreover have "\<forall>(s, b) \<in> set (cs1 @ cs2). present (db st') s b"
    using p1 p2 f2 by auto
  ultimately have "\<exists>cs. calls st' = calls st @ cs \<and> (\<forall>(s, b) \<in> set cs. present (db st') s b)"
    by blast
  with f1 f2 show ?case by auto
qed

text \<open>
  A state whose database already holds every pair a row attempts, and in which the store
  returns the same first row for every batch code and school name, only skips them.
\<close>

lemma fetchone_agree:
  assumes "fetchone xs = fetchone ys"
  shows "(xs = []) = (ys = [])" and "ys \<noteq> [] \<Longrightarrow> xs ! 0 = ys ! 0"
  using assms by (cases xs; cases ys; simp)+

lemma process_row_rerun:
  assumes "process_row alone now st row = Inr st'"
    and "\<forall>k. fetchone (select_batch (db t) k) = fetchone (select_batch (db st) k)"
    and "\<forall>n. fetchone (select_school (db t) n) = fetchone (select_school (db st) n)"
    and "calls st' = calls st @ cs"
    and "\<forall>(s, b) \<in> set cs. present (db t) s b"
  shows "\<exists>t'. process_row alone now2 t row = Inr t' \<and> db t' = db t
            \<and> inserted t' = inserted t \<and> skipped t' = skipped t + int (length cs)
            \<and> calls t' = calls t @ cs"
proof -
  obtain bk pg sn where row: "row = (bk, pg, sn)" by (cases row)
  have sb: "fetchone (select_batch (db t) bk) = fetchone (select_batch (db st) bk)"
    using assms(2) by simp
  have "fetchone (select_school (db t) sn) = fetchone (select_school (db st) sn)"
    using assms(3) by simp
  note ss = fetchone_agree [OF this]
  show ?thesis
    using assms(1,4,5) unfolding row
    by (auto simp: process_row_def count_ensure_alone Let_def sb ss
        split: option.splits if_splits)
qed

lemma process_line_rerun:
  assumes "process_line alone now st l = Inr st'"
    and "\<forall>k. fetchone (select_batch (db t) k) = fetchone (select_batch (db st) k)"
    and "\<forall>n. fetchone (select_school (db t) n) = fetchone (select_school (db st) n)"
    and "calls st' = calls st @ cs"
    and "\<forall>(s, b) \<in> set cs. present (db t) s b"
  shows "\<exists>t'. process_line alone now2 t l = Inr t' \<and> db t' = db t
            \<and> inserted t' = inserted t \<and> skipped t' = skipped t + int (length cs)
            \<and> calls t' = calls t @ cs"
proof (cases "parse_line l")
  case None
  with assms(1) have "st' = st" by (simp add: process_line_def)
  with assms(4) have "cs = []" by simp
  with None show ?thesis by (simp add: process_line_def)
next
  case (Some row)
  with assms(1) have "process_row alone now st row = Inr st'" by (simp add: process_line_def)
  from process_row_rerun [OF this assms(2-5)] Some show ?thesis
    by (simp add: process_line_def)
qed

lemma main_loop_rerun:
  "main_loop alone now st ls = Inr st' \<Longrightarrow>
   \<forall>k. fetchone (select_batch (db t) k) = fetchone (select_batch (db st) k) \<Longrightarrow>
   \<forall>n. fetchone (select_school (db t) n) = fetchone (select_school (db st) n) \<Longrightarrow>
   calls st' = calls st @ cs \<Longrightarrow> \<forall>(s, b) \<in> set cs. present (db t) s b \<Longrightarrow>
   \<exists>t'. main_loop alone now2 t ls = Inr t' \<and> db t' = db t
        \<and> inserted t' = inserted t \<and> skipped t' = skipped t + int (length cs)
        \<and> calls t' = calls t @ cs"
proof (induction ls arbitrary: st t cs)
  case Nil
  then show ?case by simp
next
  case (Cons l ls)
  obtain st1 where s1: "process_line alone now st l = Inr st1"
    using process_line_alone_total by blast
  with Cons.prems(1) have rest: "main_loop alone now st1 ls = Inr st'" by simp
  note f1 = process_line_alone_frame [OF s1]
  note f2 = main_loop_alone_frame [OF rest]
  from f1 obtain cs1 where c1: "calls st1 = calls st @ cs1" by blast
  from f2 obtain cs2 where c2: "calls st' = calls st1 @ cs2" by blast
  from c1 c2 Cons.prems(4) have cs: "cs = cs1 @ cs2" by simp
  have p1: "\<forall>(s, b) \<in> set cs1. present (db t) s b"
    and p2: "\<forall>(s, b) \<in> set cs2. present (db t) s b"
    using Cons.prems(5) cs by auto
  from process_line_rerun [OF s1 Cons.prems(2,3) c1 p1, of now2]
  obtain t1 where t1: "process_line alone now2 t l = Inr t1" "db t1 = db t"
    "inserted t1 = inserted t" "skipped t1 = skipped t + int (length cs1)"
    "calls t1 = calls t @ cs1" by blast
  have b1: "\<forall>k. fetchone (select_batch (db t1) k) = fetchone (select_batch (db st1) k)"
    using t1(2) f1 Cons.prems(2) by (simp add: select_batch_def)
  have sc1: "\<forall>n. fetchone (select_school (db t1) n) = fetchone (select_school (db st1) n)"
    using t1(2) f1 Cons.prems(3) by (simp add: select_school_def)
  have p2': "\<forall>(s, b) \<in> set cs2. present (db t1) s b" using p2 t1(2) by simp
  from Cons.IH [OF rest b1 sc1 c2 p2']
  obtain t' where t': "main_loop alone now2 t1 ls = Inr t'" "db t' = db t1"
    "inserted t' = inserted t1" "skipped t' = skipped t1 + int (length cs2)"
    "calls t' = calls t1 @ cs2" by blast
  show ?case using t1 t' cs by simp
qed

lemma present_key: "present d s b \<longleftrightarrow> (s, b) \<in> sb_key ` set (school_batch d)"
  by (auto simp: present_iff sb_key_def)

lemma process_row_alone_appends:
  assumes "process_row alone now st row = Inr st'"
  shows "\<exists>new. school_batch (db st') = school_batch (db st) @ new
           \<and> distinct (map sb_key new)
           \<and> sb_key ` set new \<inter> sb_key ` set (school_batch (db st)) = {}
           \<and> (\<forall>r \<in> set new. sb_inserted_at r = now \<and> sb_updated_at r = now)"
  using assms
  by (cases row)
     (auto simp: process_row_def count_ensure_alone Let_def present_key new_row_def sb_key_def
        split: option.splits if_splits)

lemma process_line_alone_appends:
  assumes "process_line alone now st l = Inr st'"
  shows "\<exists>new. school_batch (db st') = school_batch (db st) @ new
           \<and> distinct (map sb_key new)
           \<and> sb_key ` set new \<inter> sb_key ` set (school_batch (db st)) = {}
           \<and> (\<forall>r \<in> set new. sb_inserted_at r = now \<and> sb_updated_at r = now)"
proof (cases "parse_line l")
  case None
  with assms have "st' = st" by (simp add: process_line_def)
  then show ?thesis by simp
next
  case (Some row)
  with assms have "process_row alone now st row = Inr st'" by (simp add: process_line_def)
  then show ?thesis by (rule process_row_alone_appends)
qed

lemma main_loop_alone_appends:
  "main_loop alone now st ls = Inr st' \<Longrightarrow>
   \<exists>new. school_batch (db st') = school_batch (db st) @ new
      \<and> distinct (map sb_key new)
      \<and> sb_key ` set new \<inter> sb_key ` set (school_batch (db st)) = {}
      \<and> (\<forall>r \<in> set new. sb_inserted_at r = now \<and> sb_updated_at r = now)"
proof (induction ls arbitrary: st)
  case Nil
  then show ?case by simp
next
  case (Cons l ls)
  obtain st1 where s1: "process_line alone now st l = Inr st1"
    using process_line_alone_total by blast
  with Cons.prems have rest: "main_loop alone now st1 ls = Inr st'" by simp
  from process_line_alone_appends [OF s1] obtain n1 where
    n1: "school_batch (db st1) = school_batch (db st) @ n1" "distinct (map sb_key n1)"
      "sb_key ` set n1 \<inter> sb_key ` set (school_batch (db st)) = {}"
      "\<forall>r \<in> set n1. sb_inserted_at r = now \<and> sb_updated_at r = now" by blast
  from Cons.IH [OF rest] obtain n2 where
    n2: "school_batch (db st') = school_batch (db st1) @ n2" "distinct (map sb_key n2)"
      "sb_key ` set n2 \<inter> sb_key ` set (school_batch (db st1)) = {}"
      "\<forall>r \<in> set n2. sb_inserted_at r = now \<and> sb_updated_at r = now" by blast
  have a: "school_batch (db st') = school_batch (db st) @ (n1 @ n2)" using n1(1) n2(1) by simp
  have b: "distinct (map sb_key (n1 @ n2))" using n1(1,2) n2(2,3) by auto
  have c: "sb_key ` set (n1 @ n2) \<inter> sb_key ` set (school_batch (db st)) = {}"
    using n1(1,3) n2(3) by auto
  have d: "\<forall>r \<in> set (n1 @ n2). sb_inserted_at r = now \<and> sb_updated_at r = now"
    using n1(4) n2(4) by auto
  from a b c d show ?case by blast
qed

text \<open>Evaluation of the scenario.\<close>

lemmas parse_simps = parse_line_def strip_def strip_chars_def isspace_def
lemmas run_simps = process_line_def process_row_def count_ensure_def ensure_school_batch_def
  insert_school_batch_def select_batch_def select_school_def select_school_batch_def alone_def
  init_def Let_def

lemma parse_ex_line: "parse_line ex_line = Some (''X01'', ''CoE'', ''School A'')"
  by (simp add: ex_line_def parse_simps)

lemma parse_ghost_line: "parse_line ghost_line = Some (''GHOST'', ''CoE'', ''School A'')"
  by (simp add: ghost_line_def parse_simps)

lemma ex_first_run:
  "main_loop alone 1 (init ex_db) [ex_line, ghost_line] =
     Inr \<lparr>db = ex_db_after, inserted = 2, skipped = 0, missing_batches = [''GHOST''],
          missing_schools = [], calls = [(7, 1), (7, 5)]\<rparr>"
  by (simp add: parse_ex_line parse_ghost_line run_simps ex_db_def ex_db_after_def new_row_def)

lemma ex_first_run': "main_loop alone 1 (init ex_db) [ex_line, ghost_line] = Inr ex_run"
  by (simp only: ex_first_run ex_run_def)


text \<open>The embedded table has 94 lines, and none of them is skipped by the loop.\<close>

lemma MAPPING_DATA_length: "length MAPPING_DATA = 94"
  by (simp add: MAPPING_DATA_def)

lemma MAPPING_DATA_parses: "list_all (\<lambda>l. parse_line l \<noteq> None) MAPPING_DATA"
  by code_simp


section \<open>A second run\<close>

text \<open>
  C1, as stated, fails: the first run over a row whose school name matches two records
  stores the association of the school the store returned first, \<open>(9, 1)\<close>. When the store
  returns the same two records in the other order to the second run, that run resolves the
  row to school 7, finds no association \<open>(7, 1)\<close> and inserts it: \<open>inserted = 1\<close>,
  \<open>skipped = 0\<close>.
\<close>

theorem second_run_inserts_when_order_changes:
  "main_loop alone 1 (init dup_db) [ex_line] =
     Inr \<lparr>db = dup_db_after, inserted = 1, skipped = 0, missing_batches = [],
          missing_schools = [], calls = [(9, 1)]\<rparr>
   \<and> batch dup_db_after' = batch dup_db_after
   \<and> set (school dup_db_after') = set (school dup_db_after)
   \<and> school_batch dup_db_after' = school_batch dup_db_after
   \<and> main_loop alone 2 (init dup_db_after') [ex_line] =
       Inr \<lparr>db = dup_db_after'\<lparr>school_batch := [new_row 1 9 1, new_row 2 7 1]\<rparr>,
            inserted = 1, skipped = 0, missing_batches = [], missing_schools = [],
            calls = [(7, 1)]\<rparr>"
  by (auto simp: parse_ex_line run_simps dup_db_def dup_db'_def dup_db_after_def
      dup_db_after'_def new_row_def)

text \<open>
  C1, amended. A run with no concurrent session always completes. Let a second run with no
  concurrent session go over the same lines on a database that holds the associations the
  first run left, and let the store return to it, for every batch code and for every school
  name, the same first row as to the first run (the tables may otherwise come in any order).
  Then the second run completes with \<open>inserted = 0\<close> and \<open>skipped\<close> equal to the number of
  calls of \<open>ensure_school_batch\<close>, makes the same calls as the first run, leaves the database
  as it found it, and each of its calls finds the association stored and returns false.
\<close>

theorem second_run_only_skips_same_first_rows:
  "(\<exists>st1. main_loop alone now1 (init d) ls = Inr st1)
   \<and> (\<forall>st1 d2.
        main_loop alone now1 (init d) ls = Inr st1
        \<and> set (school_batch d2) = set (school_batch (db st1))
        \<and> (\<forall>k. fetchone (select_batch d2 k) = fetchone (select_batch d k))
        \<and> (\<forall>n. fetchone (select_school d2 n) = fetchone (select_school d n))
       \<longrightarrow> (\<exists>st2. main_loop alone now2 (init d2) ls = Inr st2
              \<and> inserted st2 = 0 \<and> skipped st2 = int (length (calls st2))
              \<and> calls st2 = calls st1 \<and> db st2 = d2
              \<and> (\<forall>(s, b) \<in> set (calls st2).
                    ensure_school_batch alone now2 d2 s b = Inr (False, d2))))"
proof -
  have a: "\<exists>st1. main_loop alone now1 (init d) ls = Inr st1"
    by (rule main_loop_alone_total)
  have b: "\<exists>st2. main_loop alone now2 (init d2) ls = Inr st2
              \<and> inserted st2 = 0 \<and> skipped st2 = int (length (calls st2))
              \<and> calls st2 = calls st1 \<and> db st2 = d2
              \<and> (\<forall>(s, b) \<in> set (calls st2).
                    ensure_school_batch alone now2 d2 s b = Inr (False, d2))"
    if r1: "main_loop alone now1 (init d) ls = Inr st1"
      and sb: "set (school_batch d2) = set (school_batch (db st1))"
      and fb: "\<forall>k. fetchone (select_batch d2 k) = fetchone (select_batch d k)"
      and fs: "\<forall>n. fetchone (select_school d2 n) = fetchone (select_school d n)"
    for st1 d2
  proof -
    from main_loop_alone_frame [OF r1]
    have pr: "\<forall>(s, b) \<in> set (calls st1). present (db st1) s b"
      by (auto simp: init_def)
    have same: "present d2 s b = present (db st1) s b" for s b
      using sb by (simp add: present_iff)
    have pr': "\<forall>(s, b) \<in> set (calls st1). present (db (init d2)) s b"
      using pr same by (auto simp: init_def)
    have fb': "\<forall>k. fetchone (select_batch (db (init d2)) k)
                   = fetchone (select_batch (db (init d)) k)"
      using fb by (simp add: init_def)
    have fs': "\<forall>n. fetchone (select_school (db (init d2)) n)
                   = fetchone (select_school (db (init d)) n)"
      using fs by (simp add: init_def)
    have c: "calls st1 = calls (init d) @ calls st1" by (simp add: init_def)
    from main_loop_rerun [OF r1 fb' fs' c pr', of now2]
    obtain st2 where "main_loop alone now2 (init d2) ls = Inr st2"
      "db st2 = db (init d2)" "inserted st2 = inserted (init d2)"
      "skipped st2 = skipped (init d2) + int (length (calls st1))"
      "calls st2 = calls (init d2) @ calls st1" by blast
    with pr same show ?thesis
      by (auto simp: init_def ensure_alone)
  qed
  from a b show ?thesis by blast
qed

theorem second_run_only_skips_same_first_rows_witness:
  "main_loop alone 1 (init ex_db) [ex_line, ghost_line] = Inr ex_run
   \<and> set (school_batch ex_db_after') = set (school_batch (db ex_run))
   \<and> (\<forall>k. fetchone (select_batch ex_db_after' k) = fetchone (select_batch ex_db k))
   \<and> (\<forall>n. fetchone (select_school ex_db_after' n) = fetchone (select_school ex_db n))
   \<and> (\<exists>st2. main_loop alone 2 (init ex_db_after') [ex_line, ghost_line] = Inr st2
         \<and> inserted st2 = 0 \<and> skipped st2 = 2 \<and> calls st2 = [(7, 1), (7, 5)]
         \<and> db st2 = ex_db_after')"
proof -
  have sb: "set (school_batch ex_db_after') = set (school_batch (db ex_run))"
    by (auto simp: ex_db_after'_def ex_run_def ex_db_after_def)
  have fb: "\<forall>k. fetchone (select_batch ex_db_after' k) = fetchone (select_batch ex_db k)"
    by (simp add: select_batch_def ex_db_after'_def ex_db_def)
  have fs: "\<forall>n. fetchone (select_school ex_db_after' n) = fetchone (select_school ex_db n)"
    by (simp add: select_school_def ex_db_after'_def ex_db_def)
  from second_run_only_skips_same_first_rows [of 1 ex_db "[ex_line, ghost_line]" 2]
    ex_first_run' sb fb fs
  obtain st2 where "main_loop alone 2 (init ex_db_after') [ex_line, ghost_line] = Inr st2"
    "inserted st2 = 0" "skipped st2 = int (length (calls st2))"
    "calls st2 = calls ex_run" "db st2 = ex_db_after'"
    by blast
  then have "\<exists>st2. main_loop alone 2 (init ex_db_after') [ex_line, ghost_line] = Inr st2
         \<and> inserted st2 = 0 \<and> skipped st2 = 2 \<and> calls st2 = [(7, 1), (7, 5)]
         \<and> db st2 = ex_db_after'"
    by (auto simp: ex_run_def)
  with ex_first_run' sb fb fs show ?thesis by blast
qed


section \<open>The run only appends absent associations\<close>

text \<open>
  C9. A run with no concurrent session leaves the \<open>batch\<close> and \<open>school\<close> tables as they were,
  and the \<open>school_batch\<close> table it leaves is the old table followed by new rows: no old row is
  changed or removed, the new rows have pairwise different keys, none of their keys was stored
  before, and both their timestamps are the time of the run. The statement holds from every
  state and for every list of lines, hence for every step of the loop.
\<close>

theorem run_only_inserts_absent:
  assumes "main_loop alone now st ls = Inr st'"
  shows "batch (db st') = batch (db st) \<and> school (db st') = school (db st)
       \<and> (\<exists>new. school_batch (db st') = school_batch (db st) @ new
             \<and> distinct (map sb_key new)
             \<and> (\<forall>r \<in> set new. \<not> present (db st) (sb_school_id r) (sb_batch_id r)
                    \<and> sb_inserted_at r = now \<and> sb_updated_at r = now))"
proof -
  from main_loop_alone_appends [OF assms] obtain new where
    n: "school_batch (db st') = school_batch (db st) @ new" "distinct (map sb_key new)"
      "sb_key ` set new \<inter> sb_key ` set (school_batch (db st)) = {}"
      "\<forall>r \<in> set new. sb_inserted_at r = now \<and> sb_updated_at r = now" by blast
  have "\<forall>r \<in> set new. \<not> present (db st) (sb_school_id r) (sb_batch_id r)"
  proof
    fix r assume "r \<in> set new"
    then have "sb_key r \<in> sb_key ` set new" by simp
    with n(3) have "sb_key r \<notin> sb_key ` set (school_batch (db st))" by blast
    then show "\<not> present (db st) (sb_school_id r) (sb_batch_id r)"
      by (simp add: present_key sb_key_def)
  qed
  with n main_loop_alone_frame [OF assms] show ?thesis by blast
qed

theorem run_only_inserts_absent_witness:
  "main_loop alone 1 (init ex_db) [ex_line, ghost_line] = Inr ex_run
   \<and> batch (db ex_run) = batch ex_db \<and> school (db ex_run) = school ex_db
   \<and> (\<exists>new. school_batch (db ex_run) = school_batch ex_db @ new \<and> distinct (map sb_key new))"
proof -
  from run_only_inserts_absent [OF ex_first_run']
  have "batch (db ex_run) = batch (db (init ex_db))" "school (db ex_run) = school (db (init ex_db))"
    "\<exists>new. school_batch (db ex_run) = school_batch (db (init ex_db)) @ new
        \<and> distinct (map sb_key new)"
    by blast+
  then show ?thesis using ex_first_run' by (simp add: init_def)
qed


section \<open>\<open>ensure_school_batch\<close> inserts exactly when the association is absent\<close>

text \<open>
  C5. With no concurrent session, \<open>ensure_school_batch\<close> returns false and leaves the database
  unchanged when a row with the composite key \<open>(school_id, batch_id)\<close> is stored, and
  otherwise returns true and appends exactly one row with that key whose \<open>inserted_at\<close> and
  \<open>updated_at\<close> are both the current time.
\<close>

theorem ensure_school_batch_inserts_iff_absent:
  "ensure_school_batch alone now d school_id batch_id =
     (if select_school_batch d school_id batch_id = []
      then Inr (True, d\<lparr>school_batch := school_batch d @
                          [\<lparr>sb_school_id = school_id, sb_batch_id = batch_id,
                            sb_inserted_at = now, sb_updated_at = now\<rparr>]\<rparr>)
      else Inr (False, d))"
  by (simp add: ensure_alone present_def new_row_def)

theorem ensure_school_batch_inserts_iff_absent_witness:
  "ensure_school_batch alone 1 ex_db 7 1 =
     Inr (True, ex_db\<lparr>school_batch := [\<lparr>sb_school_id = 7, sb_batch_id = 1,
                                        sb_inserted_at = 1, sb_updated_at = 1\<rparr>]\<rparr>)
   \<and> ensure_school_batch alone 2 ex_db_after 7 1 = Inr (False, ex_db_after)"
  using ensure_school_batch_inserts_iff_absent [of 1 ex_db 7 1]
    ensure_school_batch_inserts_iff_absent [of 2 ex_db_after 7 1]
  by (simp add: ex_db_def ex_db_after_def select_school_batch_def new_row_def)


section \<open>Every parsed row leaves a trace\<close>

lemma count_ensure_effect:
  assumes "count_ensure others now st s b = Inr st'"
  shows "missing_batches st' = missing_batches st \<and> missing_schools st' = missing_schools st
       \<and> calls st' = calls st @ [(s, b)]
       \<and> inserted st \<le> inserted st' \<and> skipped st \<le> skipped st'
       \<and> inserted st' + skipped st' = inserted st + skipped st + 1"
  using assms
  by (auto simp: count_ensure_def split: sum.splits prod.splits if_splits)

text \<open>What a parsed row does to the counters and lists, whatever other sessions do.\<close>

lemma process_row_effect:
  assumes "process_row others now st (bk, pg, sn) = Inr st'"
  shows "(select_batch (db st) bk = []
            \<and> st' = st\<lparr>missing_batches := missing_batches st @ [bk]\<rparr>)
       \<or> (select_school (db st) sn = []
            \<and> st' = st\<lparr>missing_schools := missing_schools st @ [sn]\<rparr>)
       \<or> (missing_batches st' = missing_batches st \<and> missing_schools st' = missing_schools st
            \<and> inserted st \<le> inserted st' \<and> skipped st \<le> skipped st'
            \<and> inserted st + skipped st < inserted st' + skipped st'
            \<and> inserted st' + skipped st' \<le> inserted st + skipped st + 2)"
proof (cases "fetchone (select_batch (db st) bk)")
  case None
  with assms show ?thesis by (simp add: process_row_def)
next
  case (Some br)
  note br = this
  show ?thesis
  proof (cases "select_school (db st) sn = []")
    case True
    with assms br show ?thesis by (simp add: process_row_def)
  next
    case False
    let ?sid = "s_id (select_school (db st) sn ! 0)"
    from assms br False obtain st1 where
      s1: "count_ensure others now st ?sid (b_id br) = Inr st1"
      and s2: "(case b_parent_id br of None \<Rightarrow> Inr st1
                | Some p \<Rightarrow> if p \<noteq> 0 then count_ensure others now st1 ?sid p else Inr st1)
               = Inr st'"
      by (auto simp: process_row_def Let_def split: sum.splits)
    note e1 = count_ensure_effect [OF s1]
    have "st' = st1 \<or> (\<exists>p. count_ensure others now st1 ?sid p = Inr st')"
      using s2 by (auto split: option.splits if_splits)
    then show ?thesis
    proof
      assume "st' = st1"
      with e1 show ?thesis by simp
    next
      assume "\<exists>p. count_ensure others now st1 ?sid p = Inr st'"
      then obtain p where "count_ensure others now st1 ?sid p = Inr st'" ..
      from count_ensure_effect [OF this] e1 show ?thesis by simp
    qed
  qed
qed

lemma process_row_grows:
  assumes "process_row others now st row = Inr st'"
  shows "accounted st < accounted st'
       \<and> (\<exists>xs. missing_batches st' = missing_batches st @ xs)
       \<and> (\<exists>ys. missing_schools st' = missing_schools st @ ys)
       \<and> inserted st \<le> inserted st' \<and> skipped st \<le> skipped st'"
proof -
  obtain bk pg sn where row: "row = (bk, pg, sn)" by (cases row)
  from process_row_effect [OF assms [unfolded row]] show ?thesis
    by (auto simp: accounted_def)
qed

lemma process_line_grows:
  assumes "process_line others now st l = Inr st'"
  shows "(if parse_line l = None then 0 else 1) \<le> accounted st' - accounted st
       \<and> (\<exists>xs. missing_batches st' = missing_batches st @ xs)
       \<and> (\<exists>ys. missing_schools st' = missing_schools st @ ys)
       \<and> inserted st \<le> inserted st' \<and> skipped st \<le> skipped st'"
proof (cases "parse_line l")
  case None
  with assms have "st' = st" by (simp add: process_line_def)
  with None show ?thesis by simp
next
  case (Some row)
  with assms have "process_row others now st row = Inr st'" by (simp add: process_line_def)
  from process_row_grows [OF this] Some show ?thesis by simp
qed

lemma main_loop_grows:
  "main_loop others now st ls = Inr st' \<Longrightarrow>
   int (length (filter (\<lambda>l. parse_line l \<noteq> None) ls)) \<le> accounted st' - accounted st
   \<and> (\<exists>xs. missing_batches st' = missing_batches st @ xs)
   \<and> (\<exists>ys. missing_schools st' = missing_schools st @ ys)
   \<and> inserted st \<le> inserted st' \<and> skipped st \<le> skipped st'"
proof (induction ls arbitrary: st)
  case Nil
  then show ?case by simp
next
  case (Cons l ls)
  from Cons.prems obtain st1 where s1: "process_line others now st l = Inr st1"
    and rest: "main_loop others now st1 ls = Inr st'"
    by (auto split: sum.splits)
  note g1 = process_line_grows [OF s1]
  note g2 = Cons.IH [OF rest]
  from g1 obtain xs1 ys1 where a1: "missing_batches st1 = missing_batches st @ xs1"
    "missing_schools st1 = missing_schools st @ ys1" by blast
  from g2 obtain xs2 ys2 where a2: "missing_batches st' = missing_batches st1 @ xs2"
    "missing_schools st' = missing_schools st1 @ ys2" by blast
  have "missing_batches st' = missing_batches st @ (xs1 @ xs2)"
    "missing_schools st' = missing_schools st @ (ys1 @ ys2)" using a1 a2 by simp_all
  then have "(\<exists>xs. missing_batches st' = missing_batches st @ xs)"
    "(\<exists>ys. missing_schools st' = missing_schools st @ ys)" by blast+
  moreover have "int (length (filter (\<lambda>l. parse_line l \<noteq> None) (l # ls)))
      \<le> accounted st' - accounted st"
    using g1 g2 by (auto split: if_splits)
  moreover have "inserted st \<le> inserted st'" "skipped st \<le> skipped st'"
    using g1 g2 by auto
  ultimately show ?case by blast
qed

lemma count_list_distinct: "distinct xs \<Longrightarrow> x \<in> set xs \<Longrightarrow> count_list xs x = 1"
  by (induction xs) auto

lemma sorted_set_facts:
  "set (sorted_set xs) = set xs" "distinct (sorted_set xs)" "sorted (sorted_set xs)"
  by (simp_all add: sorted_set_def)


section \<open>Rows with an unknown batch code\<close>

text \<open>
  C6. Let a line parse into a row whose batch code matches no \<open>batch\<close> record. Whatever other
  sessions do, the line's only effect is to append the code to \<open>missing_batches\<close>: the
  database, \<open>inserted\<close>, \<open>skipped\<close> and the list of \<open>ensure_school_batch\<close> calls stay as they
  were. The loop goes on with the next line, and when the run completes, the code occurs
  exactly once in \<open>sorted(set(missing_batches))\<close>, which the third line of the summary prints.
\<close>

theorem missing_batch_recorded_once:
  assumes "parse_line raw_line = Some (batch_key, program, school_name)"
    and "select_batch (db st) batch_key = []"
  shows "process_line others now st raw_line =
           Inr (st\<lparr>missing_batches := missing_batches st @ [batch_key]\<rparr>)
       \<and> main_loop others now st (raw_line # rest) =
           main_loop others now (st\<lparr>missing_batches := missing_batches st @ [batch_key]\<rparr>) rest
       \<and> (\<forall>st'. main_loop others now st (raw_line # rest) = Inr st' \<longrightarrow>
             count_list (sorted_set (missing_batches st')) batch_key = 1
           \<and> summary st' ! 2 =
               ''Missing batch_id rows: '' @ join '', '' (sorted_set (missing_batches st')))"
proof -
  let ?st1 = "st\<lparr>missing_batches := missing_batches st @ [batch_key]\<rparr>"
  have step: "process_line others now st raw_line = Inr ?st1"
    using assms by (simp add: process_line_def process_row_def)
  then have loop: "main_loop others now st (raw_line # rest) = main_loop others now ?st1 rest"
    by simp
  have "count_list (sorted_set (missing_batches st')) batch_key = 1
      \<and> summary st' ! 2 =
           ''Missing batch_id rows: '' @ join '', '' (sorted_set (missing_batches st'))"
    if "main_loop others now st (raw_line # rest) = Inr st'" for st'
  proof -
    from that loop have "main_loop others now ?st1 rest = Inr st'" by simp
    from main_loop_grows [OF this] obtain xs where
      "missing_batches st' = missing_batches ?st1 @ xs" by blast
    then have mem: "batch_key \<in> set (missing_batches st')" by simp
    then have ne: "missing_batches st' \<noteq> []" by auto
    from mem have "count_list (sorted_set (missing_batches st')) batch_key = 1"
      by (intro count_list_distinct) (simp_all add: sorted_set_facts)
    moreover from ne have "summary st' ! 2 =
        ''Missing batch_id rows: '' @ join '', '' (sorted_set (missing_batches st'))"
      by (simp add: summary_def)
    ultimately show ?thesis ..
  qed
  with step loop show ?thesis by blast
qed

lemma parse_short_line: "parse_line short_line = None"
  by (simp add: short_line_def parse_simps)

lemma str_int_0: "str_int 0 = ''0''"
  by code_simp

theorem missing_batch_recorded_once_witness:
  "parse_line ghost_line = Some (''GHOST'', ''CoE'', ''School A'')
   \<and> select_batch (db (init ex_db)) ''GHOST'' = []
   \<and> process_line alone 1 (init ex_db) ghost_line =
        Inr ((init ex_db)\<lparr>missing_batches := [''GHOST'']\<rparr>)"
proof -
  have a: "parse_line ghost_line = Some (''GHOST'', ''CoE'', ''School A'')"
    by (rule parse_ghost_line)
  have b: "select_batch (db (init ex_db)) ''GHOST'' = []"
    by (simp add: select_batch_def init_def ex_db_def)
  from missing_batch_recorded_once [OF a b, of alone 1 "[]"]
  have "process_line alone 1 (init ex_db) ghost_line =
        Inr ((init ex_db)\<lparr>missing_batches := missing_batches (init ex_db) @ [''GHOST'']\<rparr>)"
    by blast
  then have "process_line alone 1 (init ex_db) ghost_line =
        Inr ((init ex_db)\<lparr>missing_batches := [''GHOST'']\<rparr>)"
    by (simp add: init_def)
  with a b show ?thesis by blast
qed


section \<open>Lines that are skipped, and rows that are accounted for\<close>

text \<open>
  C7, as stated, fails: a line with two tab-separated fields is skipped by
  \<open>if len(parts) < 3: continue\<close>. The run over that line ends in the state in which the run
  over no line at all ends, with every counter zero and both lists empty, and prints the
  same summary.
\<close>

theorem short_line_leaves_no_trace:
  "parse_line short_line = None
   \<and> main_loop alone 1 (init ex_db) [short_line] = Inr (init ex_db)
   \<and> main_loop alone 1 (init ex_db) [] = Inr (init ex_db)
   \<and> accounted (init ex_db) = 0
   \<and> summary (init ex_db) = [''Inserted: 0'', ''Skipped (already exists): 0'']"
  by (simp add: parse_short_line process_line_def accounted_def init_def summary_def str_int_0)

text \<open>
  C7, amended. A line that is blank after stripping or has fewer than three tab-separated
  fields changes nothing. A line that parses into a row appends its batch code to
  \<open>missing_batches\<close>, or appends its school name to \<open>missing_schools\<close>, or raises
  \<open>inserted + skipped\<close> while lowering neither. Over a run that completes, the lists only grow at
  the end and the counters never fall, so that the counters and list lengths together rise by
  at least the number of lines that parse. A run with no concurrent session always completes.
  Every line of the table embedded in the script parses into a row.
\<close>

theorem parsed_rows_accounted:
  "(parse_line l = None \<longrightarrow> process_line others now st l = Inr st)
   \<and> (\<forall>bk pg sn st1.
         parse_line l = Some (bk, pg, sn) \<and> process_line others now st l = Inr st1 \<longrightarrow>
           st1 = st\<lparr>missing_batches := missing_batches st @ [bk]\<rparr>
         \<or> st1 = st\<lparr>missing_schools := missing_schools st @ [sn]\<rparr>
         \<or> (missing_batches st1 = missing_batches st \<and> missing_schools st1 = missing_schools st
              \<and> inserted st \<le> inserted st1 \<and> skipped st \<le> skipped st1
              \<and> inserted st + skipped st < inserted st1 + skipped st1))
   \<and> (\<forall>st'. main_loop others now st ls = Inr st' \<longrightarrow>
         int (length (filter (\<lambda>l. parse_line l \<noteq> None) ls)) \<le> accounted st' - accounted st
       \<and> (\<exists>xs. missing_batches st' = missing_batches st @ xs)
       \<and> (\<exists>ys. missing_schools st' = missing_schools st @ ys)
       \<and> inserted st \<le> inserted st' \<and> skipped st \<le> skipped st')
   \<and> (\<exists>st'. main_loop alone now st ls = Inr st')
   \<and> list_all (\<lambda>l. parse_line l \<noteq> None) MAPPING_DATA"
proof -
  have a: "parse_line l = None \<longrightarrow> process_line others now st l = Inr st"
    by (simp add: process_line_def)
  have b: "st1 = st\<lparr>missing_batches := missing_batches st @ [bk]\<rparr>
         \<or> st1 = st\<lparr>missing_schools := missing_schools st @ [sn]\<rparr>
         \<or> (missing_batches st1 = missing_batches st \<and> missing_schools st1 = missing_schools st
              \<and> inserted st \<le> inserted st1 \<and> skipped st \<le> skipped st1
              \<and> inserted st + skipped st < inserted st1 + skipped st1)"
    if "parse_line l = Some (bk, pg, sn) \<and> process_line others now st l = Inr st1"
    for bk pg sn st1
  proof -
    from that have "process_row others now st (bk, pg, sn) = Inr st1"
      by (auto simp: process_line_def)
    from process_row_effect [OF this] show ?thesis by blast
  qed
  from a b main_loop_grows [of others now st ls] main_loop_alone_total [of now st ls]
    MAPPING_DATA_parses
  show ?thesis by blast
qed

theorem parsed_rows_accounted_witness:
  "main_loop alone 1 (init ex_db) [ex_line, ghost_line] = Inr ex_run
   \<and> length (filter (\<lambda>l. parse_line l \<noteq> None) [ex_line, ghost_line]) = 2
   \<and> 2 \<le> accounted ex_run - accounted (init ex_db)"
proof -
  have n: "length (filter (\<lambda>l. parse_line l \<noteq> None) [ex_line, ghost_line]) = 2"
    by (simp add: parse_ex_line parse_ghost_line)
  from parsed_rows_accounted [of ex_line alone 1 "init ex_db" "[ex_line, ghost_line]"]
    ex_first_run'
  have "int (length (filter (\<lambda>l. parse_line l \<noteq> None) [ex_line, ghost_line]))
          \<le> accounted ex_run - accounted (init ex_db)"
    by blast
  with n ex_first_run' show ?thesis by simp
qed


section \<open>Duplicate school names\<close>

text \<open>
  C2, as stated, fails: with two school records of the same name stored so that the store
  returns id 9 before id 7, the row is resolved to school 9, although the lowest matching
  id is 7; with the same records returned in the other order, the row is resolved to 7.
\<close>

theorem resolver_takes_first_row_not_lowest_id:
  "(\<exists>st. main_loop alone 1 (init dup_db) [ex_line] = Inr st \<and> calls st = [(9, 1)])
   \<and> Min (school_ids dup_db ''School A'') = 7
   \<and> set (school dup_db') = set (school dup_db) \<and> batch dup_db' = batch dup_db
   \<and> (\<exists>st. main_loop alone 1 (init dup_db') [ex_line] = Inr st \<and> calls st = [(7, 1)])"
proof -
  have "school_ids dup_db ''School A'' = {9, 7}"
    by (simp add: school_ids_def select_school_def dup_db_def)
  then have "Min (school_ids dup_db ''School A'') = 7" by simp
  then show ?thesis
    by (auto simp: parse_ex_line run_simps dup_db_def dup_db'_def)
qed

lemma Min_sorted_Cons: "sorted (x # xs) \<Longrightarrow> Min (set (x # xs)) = (x::int)"
  by (auto intro: Min_eqI)

text \<open>
  C2, amended. When a school name matches several records, the row is resolved to the first
  row the store returns for the name (\<open>school_rows[0]\<close>): every \<open>ensure_school_batch\<close> call of
  the row carries that row's id, whatever other sessions do, and a run with no concurrent
  session completes the row. That id is the lowest matching id when the store returns the
  matching rows in ascending order of id.
\<close>

theorem resolver_takes_first_row:
  assumes "parse_line l = Some (bk, pg, sn)"
    and "fetchone (select_batch (db st) bk) = Some br"
    and "select_school (db st) sn = r # rs"
  shows "(\<forall>st'. process_line others now st l = Inr st' \<longrightarrow>
            (\<exists>cs. calls st' = calls st @ (s_id r, b_id br) # cs
                 \<and> (\<forall>c \<in> set cs. fst c = s_id r)))
       \<and> (\<exists>st'. process_line alone now st l = Inr st')
       \<and> (sorted (map s_id (select_school (db st) sn)) \<longrightarrow>
            s_id r = Min (school_ids (db st) sn))"
proof -
  have a: "\<exists>cs. calls st' = calls st @ (s_id r, b_id br) # cs \<and> (\<forall>c \<in> set cs. fst c = s_id r)"
    if "process_line others now st l = Inr st'" for st'
  proof -
    from that assms obtain st1 where
      s1: "count_ensure others now st (s_id r) (b_id br) = Inr st1"
      and s2: "(case b_parent_id br of None \<Rightarrow> Inr st1
                | Some p \<Rightarrow> if p \<noteq> 0 then count_ensure others now st1 (s_id r) p else Inr st1)
               = Inr st'"
      by (auto simp: process_line_def process_row_def Let_def split: sum.splits)
    note e1 = count_ensure_effect [OF s1]
    have "st' = st1 \<or> (\<exists>p. count_ensure others now st1 (s_id r) p = Inr st')"
      using s2 by (auto split: option.splits if_splits)
    then show ?thesis
    proof
      assume "st' = st1"
      with e1 show ?thesis by simp
    next
      assume "\<exists>p. count_ensure others now st1 (s_id r) p = Inr st'"
      then obtain p where "count_ensure others now st1 (s_id r) p = Inr st'" ..
      from count_ensure_effect [OF this] e1 show ?thesis by simp
    qed
  qed
  have b: "\<exists>st'. process_line alone now st l = Inr st'"
    by (rule process_line_alone_total)
  have c: "s_id r = Min (school_ids (db st) sn)"
    if "sorted (map s_id (select_school (db st) sn))"
    using that assms(3) Min_sorted_Cons [of "s_id r" "map s_id rs"]
    by (simp add: school_ids_def)
  from a b c show ?thesis by blast
qed

theorem resolver_takes_first_row_witness:
  "parse_line ex_line = Some (''X01'', ''CoE'', ''School A'')
   \<and> fetchone (select_batch (db (init dup_db)) ''X01'') =
        Some \<lparr>b_id = 1, b_batch_id = ''X01'', b_parent_id = None\<rparr>
   \<and> select_school (db (init dup_db)) ''School A'' =
        [\<lparr>s_id = 9, s_name = ''School A''\<rparr>, \<lparr>s_id = 7, s_name = ''School A''\<rparr>]
   \<and> (\<exists>st'. process_line alone 1 (init dup_db) ex_line = Inr st')"
proof -
  have a: "parse_line ex_line = Some (''X01'', ''CoE'', ''School A'')" by (rule parse_ex_line)
  have b: "fetchone (select_batch (db (init dup_db)) ''X01'') =
        Some \<lparr>b_id = 1, b_batch_id = ''X01'', b_parent_id = None\<rparr>"
    by (simp add: select_batch_def init_def dup_db_def)
  have c: "select_school (db (init dup_db)) ''School A'' =
        [\<lparr>s_id = 9, s_name = ''School A''\<rparr>, \<lparr>s_id = 7, s_name = ''School A''\<rparr>]"
    by (simp add: select_school_def init_def dup_db_def)
  from resolver_takes_first_row [OF a b c, of alone 1]
  have "\<exists>st'. process_line alone 1 (init dup_db) ex_line = Inr st'" by blast
  with a b c show ?thesis by blast
qed


section \<open>A uniqueness violation of the insert\<close>

text \<open>
  C3, as stated, fails: when another session commits the association between the existence
  check and the insert, the insert raises the uniqueness violation, \<open>ensure_school_batch\<close>
  raises it, the loop ends with it at the first row (the second row is not processed, nothing
  is counted as skipped), and the script prints no summary.
\<close>

theorem unique_violation_not_absorbed:
  "ensure_school_batch racing 1 ex_db 7 1 = Inl UniqueViolation
   \<and> main_loop racing 1 (init ex_db) [ex_line, ghost_line] = Inl UniqueViolation
   \<and> script racing 1 ex_db [ex_line, ghost_line] = Inl UniqueViolation"
  by (simp add: script_def parse_ex_line racing_def new_row_def ex_db_def
      process_line_def process_row_def count_ensure_def ensure_school_batch_def
      insert_school_batch_def select_batch_def select_school_def select_school_batch_def
      init_def Let_def)

lemma ensure_raises_iff:
  "ensure_school_batch others now d s b = Inl e \<longleftrightarrow> \<not> present d s b \<and> present (others d) s b"
  by (cases e)
     (auto simp: ensure_school_batch_def insert_school_batch_def present_def
        split: option.splits sum.splits)

lemma main_loop_append:
  "main_loop others now st (pre @ post) =
     (case main_loop others now st pre of
        Inl e \<Rightarrow> Inl e
      | Inr sa \<Rightarrow> main_loop others now sa post)"
  by (induction pre arbitrary: st) (auto split: sum.splits)

text \<open>
  C3, amended. \<open>ensure_school_batch\<close> raises the uniqueness violation exactly when its
  existence check found no row and the key is stored by the time of the insert; with no
  concurrent session it never raises. The violation is not caught: when the direct attempt
  of a row raises it, or the direct attempt returns and the parent attempt raises it, the row
  ends with that error; a row that ends with an error ends the loop with it wherever the row
  stands in the input, no later line is processed, and the script ends with the error instead
  of a summary.
\<close>

theorem unique_violation_propagates:
  "(ensure_school_batch others now d s b = Inl UniqueViolation
      \<longleftrightarrow> \<not> present d s b \<and> present (others d) s b)
   \<and> (\<exists>res. ensure_school_batch alone now d s b = Inr res)
   \<and> (parse_line l = Some (bk, pg, sn) \<and> fetchone (select_batch (db st) bk) = Some br
        \<and> select_school (db st) sn = r # rs
        \<and> ensure_school_batch others now (db st) (s_id r) (b_id br) = Inl e
      \<longrightarrow> process_line others now st l = Inl e
        \<and> main_loop others now st (l # rest) = Inl e)
   \<and> (parse_line l = Some (bk, pg, sn) \<and> fetchone (select_batch (db st) bk) = Some br
        \<and> select_school (db st) sn = r # rs
        \<and> count_ensure others now st (s_id r) (b_id br) = Inr st1
        \<and> b_parent_id br = Some p \<and> p \<noteq> 0
        \<and> ensure_school_batch others now (db st1) (s_id r) p = Inl e
      \<longrightarrow> process_line others now st l = Inl e
        \<and> main_loop others now st (l # rest) = Inl e)
   \<and> (main_loop others now st pre = Inr sa \<and> process_line others now sa l = Inl e
      \<longrightarrow> main_loop others now st (pre @ l # rest) = Inl e)
   \<and> (main_loop others now (init d) ls = Inl e \<longrightarrow> script others now d ls = Inl e)"
proof -
  have a: "ensure_school_batch others now d s b = Inl UniqueViolation
      \<longleftrightarrow> \<not> present d s b \<and> present (others d) s b"
    by (rule ensure_raises_iff)
  have b: "\<exists>res. ensure_school_batch alone now d s b = Inr res"
    by (cases "present d s b") (auto simp: ensure_alone)
  have c: "process_line others now st l = Inl e \<and> main_loop others now st (l # rest) = Inl e"
    if "parse_line l = Some (bk, pg, sn)" "fetchone (select_batch (db st) bk) = Some br"
      "select_school (db st) sn = r # rs"
      "ensure_school_batch others now (db st) (s_id r) (b_id br) = Inl e"
    using that by (simp add: process_line_def process_row_def count_ensure_def)
  have c': "process_line others now st l = Inl e \<and> main_loop others now st (l # rest) = Inl e"
    if "parse_line l = Some (bk, pg, sn)" "fetchone (select_batch (db st) bk) = Some br"
      "select_school (db st) sn = r # rs"
      "count_ensure others now st (s_id r) (b_id br) = Inr st1"
      "b_parent_id br = Some p" "p \<noteq> 0"
      "ensure_school_batch others now (db st1) (s_id r) p = Inl e"
  proof -
    from that(7) have "count_ensure others now st1 (s_id r) p = Inl e"
      by (simp add: count_ensure_def)
    with that(1-6) show ?thesis
      by (simp add: process_line_def process_row_def)
  qed
  have f: "main_loop others now st (pre @ l # rest) = Inl e"
    if "main_loop others now st pre = Inr sa" "process_line others now sa l = Inl e"
    using that by (simp add: main_loop_append)
  have g: "main_loop others now (init d) ls = Inl e \<longrightarrow> script others now d ls = Inl e"
    by (simp add: script_def)
  from a b c c' f g show ?thesis by blast
qed

theorem unique_violation_propagates_witness:
  "parse_line ex_line = Some (''X01'', ''CoE'', ''School A'')
   \<and> fetchone (select_batch (db (init ex_db)) ''X01'') =
        Some \<lparr>b_id = 1, b_batch_id = ''X01'', b_parent_id = Some 5\<rparr>
   \<and> select_school (db (init ex_db)) ''School A'' = [\<lparr>s_id = 7, s_name = ''School A''\<rparr>]
   \<and> ensure_school_batch racing 1 (db (init ex_db)) 7 1 = Inl UniqueViolation
   \<and> process_line racing 1 (init ex_db) ex_line = Inl UniqueViolation
   \<and> main_loop racing 1 (init ex_db) [ex_line, ghost_line] = Inl UniqueViolation
   \<and> count_ensure racing_parent 1 (init ex_db) 7 1 = Inr ex_mid
   \<and> ensure_school_batch racing_parent 1 (db ex_mid) 7 5 = Inl UniqueViolation
   \<and> process_line racing_parent 1 (init ex_db) ex_line = Inl UniqueViolation
   \<and> main_loop racing_parent 1 (init ex_db) [ex_line, ghost_line] = Inl UniqueViolation
   \<and> main_loop racing 1 (init ex_db) [ghost_line] =
        Inr ((init ex_db)\<lparr>missing_batches := [''GHOST'']\<rparr>)
   \<and> process_line racing 1 ((init ex_db)\<lparr>missing_batches := [''GHOST'']\<rparr>) ex_line =
        Inl UniqueViolation
   \<and> main_loop racing 1 (init ex_db) ([ghost_line] @ ex_line # [ghost_line]) =
        Inl UniqueViolation"
proof -
  let ?br = "\<lparr>b_id = 1, b_batch_id = ''X01'', b_parent_id = Some 5\<rparr>"
  let ?r = "\<lparr>s_id = 7, s_name = ''School A''\<rparr>"
  let ?g = "(init ex_db)\<lparr>missing_batches := [''GHOST'']\<rparr>"
  have a: "parse_line ex_line = Some (''X01'', ''CoE'', ''School A'')" by (rule parse_ex_line)
  have b: "fetchone (select_batch (db (init ex_db)) ''X01'') = Some ?br"
    by (simp add: select_batch_def init_def ex_db_def)
  have c: "select_school (db (init ex_db)) ''School A'' = [?r]"
    by (simp add: select_school_def init_def ex_db_def)
  have d: "ensure_school_batch racing 1 (db (init ex_db)) 7 1 = Inl UniqueViolation"
    by (simp add: racing_def new_row_def ex_db_def init_def ensure_school_batch_def
        insert_school_batch_def select_school_batch_def)
  have m: "count_ensure racing_parent 1 (init ex_db) 7 1 = Inr ex_mid"
    by (simp add: racing_parent_def present_def new_row_def ex_db_def init_def ex_mid_def
        count_ensure_def ensure_school_batch_def insert_school_batch_def
        select_school_batch_def)
  have p: "ensure_school_batch racing_parent 1 (db ex_mid) 7 5 = Inl UniqueViolation"
    by (simp add: racing_parent_def present_def new_row_def ex_db_def ex_mid_def
        ensure_school_batch_def insert_school_batch_def select_school_batch_def)
  have g: "main_loop racing 1 (init ex_db) [ghost_line] = Inr ?g"
    by (simp add: parse_ghost_line process_line_def process_row_def select_batch_def
        init_def ex_db_def)
  have bg: "fetchone (select_batch (db ?g) ''X01'') = Some ?br"
    by (simp add: select_batch_def init_def ex_db_def)
  have cg: "select_school (db ?g) ''School A'' = [?r]"
    by (simp add: select_school_def init_def ex_db_def)
  have dg: "ensure_school_batch racing 1 (db ?g) 7 1 = Inl UniqueViolation"
    using d by (simp add: init_def)
  from unique_violation_propagates [of racing 1 "db (init ex_db)" 7 1 ex_line
      "''X01''" "''CoE''" "''School A''" "init ex_db" ?br ?r "[]" UniqueViolation
      "[ghost_line]"]
    a b c d
  have direct: "process_line racing 1 (init ex_db) ex_line = Inl UniqueViolation
      \<and> main_loop racing 1 (init ex_db) [ex_line, ghost_line] = Inl UniqueViolation"
    by simp
  from unique_violation_propagates [of racing_parent 1 "db (init ex_db)" 7 1 ex_line
      "''X01''" "''CoE''" "''School A''" "init ex_db" ?br ?r "[]" UniqueViolation
      "[ghost_line]" ex_mid 5]
    a b c m p
  have parent: "process_line racing_parent 1 (init ex_db) ex_line = Inl UniqueViolation
      \<and> main_loop racing_parent 1 (init ex_db) [ex_line, ghost_line] = Inl UniqueViolation"
    by simp
  from unique_violation_propagates [of racing 1 "db ?g" 7 1 ex_line
      "''X01''" "''CoE''" "''School A''" ?g ?br ?r "[]" UniqueViolation "[ghost_line]"]
    a bg cg dg
  have late: "process_line racing 1 ?g ex_line = Inl UniqueViolation" by simp
  from unique_violation_propagates [of racing 1 "db (init ex_db)" 7 1 ex_line
      "''X01''" "''CoE''" "''School A''" "init ex_db" ?br ?r "[]" UniqueViolation
      "[ghost_line]" ex_mid 5 "[ghost_line]" ?g]
    g late
  have pos: "main_loop racing 1 (init ex_db) ([ghost_line] @ ex_line # [ghost_line]) =
        Inl UniqueViolation"
    by blast
  from a b c d direct m p parent g late pos show ?thesis by blast
qed


section \<open>Parent propagation\<close>

text \<open>
  A row whose batch has a parent id other than 0 makes two attempts, the direct one and the
  parent one, whether the direct attempt inserted or skipped.
\<close>

lemma parent_association_attempted:
  assumes "parse_line l = Some (bk, pg, sn)"
    and "fetchone (select_batch (db st) bk) = Some br"
    and "b_parent_id br = Some p" and "p \<noteq> 0"
    and "select_school (db st) sn = r # rs"
  shows "\<exists>st'. process_line alone now st l = Inr st'
            \<and> calls st' = calls st @ [(s_id r, b_id br), (s_id r, p)]"
  using assms
  by (auto simp: process_line_def process_row_def count_ensure_alone Let_def)

text \<open>
  C4 at a batch whose parent id is 0, which is not null: \<open>if parent_id:\<close> is false for 0, so
  the row makes the direct attempt only and no attempt for the parent.
\<close>

theorem zero_parent_gets_one_attempt:
  "fetchone (select_batch zero_parent_db ''X01'') =
     Some \<lparr>b_id = 1, b_batch_id = ''X01'', b_parent_id = Some 0\<rparr>
   \<and> main_loop alone 1 (init zero_parent_db) [ex_line] =
       Inr \<lparr>db = zero_parent_db\<lparr>school_batch := [new_row 1 7 1]\<rparr>, inserted = 1, skipped = 0,
            missing_batches = [], missing_schools = [], calls = [(7, 1)]\<rparr>"
  by (simp add: parse_ex_line run_simps zero_parent_db_def new_row_def)


section \<open>What the summary prints\<close>

text \<open>
  C8. When the script completes, the database it leaves is the one the loop left, and the
  lines it prints are computed from the variables the loop left: the inserted count, the
  skipped count, then, when \<open>missing_batches\<close> is not empty, its distinct elements in ascending
  order, joined by commas, and likewise for \<open>missing_schools\<close>.
\<close>

theorem summary_reports_final_state:
  assumes "script others now d ls = Inr (d', out)"
  shows "\<exists>st. main_loop others now (init d) ls = Inr st \<and> d' = db st
          \<and> out = [''Inserted: '' @ str_int (inserted st),
                    ''Skipped (already exists): '' @ str_int (skipped st)]
                 @ (if missing_batches st = [] then []
                    else [''Missing batch_id rows: ''
                            @ join '', '' (sorted_set (missing_batches st))])
                 @ (if missing_schools st = [] then []
                    else [''Missing school rows: ''
                            @ join '', '' (sorted_set (missing_schools st))])
          \<and> sorted (sorted_set (missing_batches st)) \<and> distinct (sorted_set (missing_batches st))
          \<and> set (sorted_set (missing_batches st)) = set (missing_batches st)
          \<and> sorted (sorted_set (missing_schools st)) \<and> distinct (sorted_set (missing_schools st))
          \<and> set (sorted_set (missing_schools st)) = set (missing_schools st)"
proof -
  from assms obtain st where st: "main_loop others now (init d) ls = Inr st"
    and d': "d' = db st" and out: "out = summary st"
    by (auto simp: script_def split: sum.splits)
  from out have "out = [''Inserted: '' @ str_int (inserted st),
                    ''Skipped (already exists): '' @ str_int (skipped st)]
                 @ (if missing_batches st = [] then []
                    else [''Missing batch_id rows: ''
                            @ join '', '' (sorted_set (missing_batches st))])
                 @ (if missing_schools st = [] then []
                    else [''Missing school rows: ''
                            @ join '', '' (sorted_set (missing_schools st))])"
    by (simp add: summary_def)
  with st d' show ?thesis by (simp add: sorted_set_facts)
qed

lemma sorted_set_ghost: "sorted_set [''GHOST''] = [''GHOST'']"
  by (simp add: sorted_set_def)

lemma str_int_2: "str_int 2 = ''2''"
  by code_simp

theorem summary_reports_final_state_witness:
  "script alone 1 ex_db [ex_line, ghost_line] =
     Inr (ex_db_after, [''Inserted: 2'', ''Skipped (already exists): 0'',
                        ''Missing batch_id rows: GHOST''])"
proof -
  have s: "script alone 1 ex_db [ex_line, ghost_line] = Inr (db ex_run, summary ex_run)"
    by (simp only: script_def ex_first_run' sum.case)
  from summary_reports_final_state [OF s] ex_first_run'
  have "summary ex_run = [''Inserted: '' @ str_int (inserted ex_run),
                    ''Skipped (already exists): '' @ str_int (skipped ex_run)]
                 @ (if missing_batches ex_run = [] then []
                    else [''Missing batch_id rows: ''
                            @ join '', '' (sorted_set (missing_batches ex_run))])
                 @ (if missing_schools ex_run = [] then []
                    else [''Missing school rows: ''
                            @ join '', '' (sorted_set (missing_schools ex_run))])"
    by auto
  then have "summary ex_run = [''Inserted: 2'', ''Skipped (already exists): 0'',
                        ''Missing batch_id rows: GHOST'']"
    by (simp add: ex_run_def sorted_set_ghost str_int_0 str_int_2)
  with s show ?thesis by (simp add: ex_run_def)
qed


section \<open>\<open>load_env\<close> keeps what is set\<close>

lemma load_env_line_cases:
  assumes "load_env_line env l = Inr env'"
  shows "env' = env \<or> (\<exists>k v. k \<noteq> [] \<and> env k = None \<and> env' = env(k \<mapsto> v))"
  using assms
  by (auto simp: load_env_line_def environ_set_def Let_def split: if_splits prod.splits)

lemma load_env_line_keeps:
  assumes "load_env_line env l = Inr env'" and "env k = Some v"
  shows "env' k = Some v"
  using load_env_line_cases [OF assms(1)] assms(2) by auto

lemma load_env_lines_keeps:
  "env k = Some v \<Longrightarrow> fst (load_env_lines env ls) k = Some v"
proof (induction ls arbitrary: env)
  case Nil
  then show ?case by simp
next
  case (Cons l ls)
  show ?case
  proof (cases "load_env_line env l")
    case (Inl e)
    with Cons.prems show ?thesis by simp
  next
    case (Inr env1)
    from load_env_line_keeps [OF Inr Cons.prems] have "env1 k = Some v" .
    then have "fst (load_env_lines env1 ls) k = Some v" by (rule Cons.IH)
    with Inr show ?thesis by simp
  qed
qed

text \<open>
  C10. Every variable set before \<open>load_env\<close> has the same value after it, whether the file
  exists or not and whether the loop ends normally or not. A line that is blank after
  stripping, starts with \<open>#\<close> or contains no \<open>=\<close> leaves the environment unchanged, and a line
  changes the environment only by storing a value under a non-empty name that was not set.
\<close>

theorem load_env_keeps_existing:
  "(\<forall>k v. env k = Some v \<longrightarrow> fst (load_env env_file env) k = Some v)
   \<and> (\<forall>l. strip l = [] \<or> startswith ''#'' (strip l) \<or> CHR ''='' \<notin> set (strip l)
          \<longrightarrow> load_env_line env l = Inr env)
   \<and> (\<forall>l env'. load_env_line env l = Inr env' \<longrightarrow>
          env' = env \<or> (\<exists>k v. k \<noteq> [] \<and> env k = None \<and> env' = env(k \<mapsto> v)))"
proof -
  have a: "fst (load_env env_file env) k = Some v" if "env k = Some v" for k v
    using that by (cases env_file) (simp_all add: load_env_def load_env_lines_keeps)
  have b: "load_env_line env l = Inr env"
    if "strip l = [] \<or> startswith ''#'' (strip l) \<or> CHR ''='' \<notin> set (strip l)" for l
    using that by (auto simp: load_env_line_def Let_def)
  from a b load_env_line_cases show ?thesis by blast
qed

lemma ex_load_env:
  "load_env (Some ex_env_file) ex_environ =
     (ex_environ(''DATABASE_PORT'' \<mapsto> ''5433''), None)"
  by (simp add: load_env_def ex_env_file_def ex_environ_def load_env_line_def strip_def
      strip_chars_def isspace_def startswith_def str_split1_def environ_set_def Let_def)

theorem load_env_keeps_existing_witness:
  "ex_environ ''DATABASE_HOST'' = Some ''prod''
   \<and> fst (load_env (Some ex_env_file) ex_environ) ''DATABASE_HOST'' = Some ''prod''
   \<and> fst (load_env (Some ex_env_file) ex_environ) ''DATABASE_PORT'' = Some ''5433''"
proof -
  have a: "ex_environ ''DATABASE_HOST'' = Some ''prod''" by (simp add: ex_environ_def)
  from load_env_keeps_existing [of ex_environ "Some ex_env_file"] a
  have "fst (load_env (Some ex_env_file) ex_environ) ''DATABASE_HOST'' = Some ''prod''"
    by blast
  with a show ?thesis by (simp add: ex_load_env)
qed

end
